theory Spec2Isabelle
  imports Main "HOL-Library.Char_ord" "HOL-Library.List_Lexorder"
begin

section \<open>GeminiTask: the persistent store (database.py)\<close>

text \<open>
  The program keeps three SQLite tables. A table is modelled as the list of its rows,
  and every function of \<^verbatim>\<open>database.py\<close> as a function from the store to a result and
  the store after the call: each of them opens its own connection and commits before it
  returns. Python strings are byte strings here (\<open>string\<close>), compared as SQLite's
  default BINARY collation compares TEXT values: byte by byte.
\<close>

subsection \<open>Rows and tables\<close>

text \<open>
  \<^verbatim>\<open>contexts (id INTEGER PRIMARY KEY AUTOINCREMENT, name TEXT UNIQUE NOT NULL)\<close>;
  the table \<^verbatim>\<open>projects\<close> has the same columns.
\<close>

record name_row =
  row_id :: int
  row_name :: string

text \<open>
  \<^verbatim>\<open>tasks (id, description TEXT NOT NULL, priority TEXT, due_date_time TEXT,
  context_id INTEGER, project_id INTEGER, created_at, completed BOOLEAN DEFAULT 0)\<close>.
  A nullable column is an \<open>option\<close>, with \<open>None\<close> for NULL. The column
  \<^verbatim>\<open>completed\<close> only ever holds 0 or 1.
\<close>

record task_row =
  task_id :: int
  description :: string
  priority :: "string option"
  due_date_time :: "string option"
  context_id :: "int option"
  project_id :: "int option"
  created_at :: string
  completed :: bool

text \<open>
  The store: the three tables and, for each, the entry of \<^verbatim>\<open>sqlite_sequence\<close> that
  AUTOINCREMENT keeps (the largest row id the table ever held).
\<close>

record store =
  contexts :: "name_row list"
  projects :: "name_row list"
  tasks :: "task_row list"
  contexts_seq :: int
  projects_seq :: int
  tasks_seq :: int

text \<open>
  The results the functions return as \<^verbatim>\<open>{"success": False, "error": ...}\<close>, one
  constructor for each message.
\<close>

datatype error =
    ContextExists string    \<comment> \<open>\<^verbatim>\<open>Context '{name}' already exists\<close>\<close>
  | ProjectExists string    \<comment> \<open>\<^verbatim>\<open>Project '{name}' already exists\<close>\<close>
  | TaskNotFound int        \<comment> \<open>\<^verbatim>\<open>Task with ID {task_id} not found\<close>\<close>
  | NoUpdates               \<comment> \<open>\<^verbatim>\<open>No updates provided\<close>\<close>
  | DbFailure string        \<comment> \<open>\<^verbatim>\<open>str(e)\<close> of an exception of the database\<close>

text \<open>
  The row id AUTOINCREMENT gives to a new row: one more than the largest of the ids in
  the table and the recorded sequence value.
\<close>

definition next_rowid :: "int \<Rightarrow> int list \<Rightarrow> int" where
  "next_rowid seq ids = fold max ids seq + 1"

subsection \<open>Contexts\<close>

text \<open>
  \<^verbatim>\<open>add_context\<close>: the INSERT raises \<^verbatim>\<open>sqlite3.IntegrityError\<close> when the name is in
  the table already (the column is UNIQUE); the statement is then undone as a whole.
\<close>

definition add_context :: "store \<Rightarrow> string \<Rightarrow> (error + name_row) \<times> store" where
  "add_context st name =
     (if name \<in> set (map row_name (contexts st)) then (Inl (ContextExists name), st)
      else
        let i = next_rowid (contexts_seq st) (map row_id (contexts st));
            r = \<lparr>row_id = i, row_name = name\<rparr>
        in (Inr r, st\<lparr>contexts := contexts st @ [r], contexts_seq := i\<rparr>))"

text \<open>\<^verbatim>\<open>get_context_by_name\<close>: \<^verbatim>\<open>SELECT * FROM contexts WHERE name = ?\<close>, first row.\<close>

definition get_context_by_name :: "store \<Rightarrow> string \<Rightarrow> name_row option" where
  "get_context_by_name st name = find (\<lambda>r. row_name r = name) (contexts st)"

subsection \<open>Projects\<close>

definition add_project :: "store \<Rightarrow> string \<Rightarrow> (error + name_row) \<times> store" where
  "add_project st name =
     (if name \<in> set (map row_name (projects st)) then (Inl (ProjectExists name), st)
      else
        let i = next_rowid (projects_seq st) (map row_id (projects st));
            r = \<lparr>row_id = i, row_name = name\<rparr>
        in (Inr r, st\<lparr>projects := projects st @ [r], projects_seq := i\<rparr>))"

definition get_project_by_name :: "store \<Rightarrow> string \<Rightarrow> name_row option" where
  "get_project_by_name st name = find (\<lambda>r. row_name r = name) (projects st)"

subsection \<open>Timestamps\<close>

text \<open>
  A \<^verbatim>\<open>datetime.datetime\<close> value, to the second (the program never reads the
  microseconds).
\<close>

record datetime =
  year :: nat
  month :: nat
  day :: nat
  hour :: nat
  minute :: nat
  second :: nat

definition digit_char :: "nat \<Rightarrow> char" where
  "digit_char d = char_of (48 + d)"

text \<open>\<^verbatim>\<open>str(n)\<close> of a natural number.\<close>

fun show_nat :: "nat \<Rightarrow> string" where
  "show_nat n = (if n < 10 then [digit_char n] else show_nat (n div 10) @ [digit_char (n mod 10)])"

declare show_nat.simps [simp del]

text \<open>\<^verbatim>\<open>str.zfill\<close>: zeros on the left up to the width.\<close>

definition zfill :: "nat \<Rightarrow> string \<Rightarrow> string" where
  "zfill w s = replicate (w - length s) (CHR ''0'') @ s"

text \<open>
  \<^verbatim>\<open>dt.strftime("%Y-%m-%d %H:%M:%S")\<close>. The year is written with four digits, as the
  library documents it (for years below 1000 some platforms do not pad it).
\<close>

definition strftime :: "datetime \<Rightarrow> string" where
  "strftime dt =
     zfill 4 (show_nat (year dt)) @ ''-'' @ zfill 2 (show_nat (month dt)) @ ''-''
       @ zfill 2 (show_nat (day dt)) @ '' '' @ zfill 2 (show_nat (hour dt)) @ '':''
       @ zfill 2 (show_nat (minute dt)) @ '':'' @ zfill 2 (show_nat (second dt))"

text \<open>
  The ranges of the fields of a \<^verbatim>\<open>datetime\<close> (the day is checked against the month
  where dates are built, below).
\<close>

definition fields_in_range :: "datetime \<Rightarrow> bool" where
  "fields_in_range dt \<longleftrightarrow>
     1 \<le> year dt \<and> year dt \<le> 9999 \<and> 1 \<le> month dt \<and> month dt \<le> 12 \<and> 1 \<le> day dt \<and> day dt \<le> 31
     \<and> hour dt \<le> 23 \<and> minute dt \<le> 59 \<and> second dt \<le> 59"

text \<open>\<^verbatim>\<open>a < b\<close> on \<^verbatim>\<open>datetime\<close> values: the fields compared in order.\<close>

definition earlier :: "datetime \<Rightarrow> datetime \<Rightarrow> bool" where
  "earlier a b \<longleftrightarrow>
     year a < year b \<or> year a = year b \<and>
      (month a < month b \<or> month a = month b \<and>
        (day a < day b \<or> day a = day b \<and>
          (hour a < hour b \<or> hour a = hour b \<and>
            (minute a < minute b \<or> minute a = minute b \<and> second a < second b))))"

subsection \<open>Tasks\<close>

text \<open>
  A row of \<^verbatim>\<open>SELECT t.*, c.name as context_name, p.name as project_name FROM tasks t
  LEFT JOIN contexts c ON t.context_id = c.id LEFT JOIN projects p ON t.project_id = p.id\<close>.
\<close>

record joined_task =
  task :: task_row
  context_name :: "string option"
  project_name :: "string option"

text \<open>
  The name a LEFT JOIN attaches: NULL when the reference is NULL or no row has that id
  (\<^verbatim>\<open>id\<close> is the primary key, so at most one row has it).
\<close>

definition joined_name :: "name_row list \<Rightarrow> int option \<Rightarrow> string option" where
  "joined_name rows ref =
     (case ref of None \<Rightarrow> None
      | Some i \<Rightarrow> map_option row_name (find (\<lambda>r. row_id r = i) rows))"

definition join :: "store \<Rightarrow> task_row \<Rightarrow> joined_task" where
  "join st r = \<lparr>task = r, context_name = joined_name (contexts st) (context_id r),
                project_name = joined_name (projects st) (project_id r)\<rparr>"

text \<open>\<^verbatim>\<open>get_task\<close>: the joined row with this id, or \<^verbatim>\<open>None\<close>.\<close>

definition get_task :: "store \<Rightarrow> int \<Rightarrow> joined_task option" where
  "get_task st i = map_option (join st) (find (\<lambda>r. task_id r = i) (tasks st))"

text \<open>
  \<^verbatim>\<open>add_task\<close>. \<^verbatim>\<open>if context_name:\<close> is false for \<^verbatim>\<open>None\<close> and for the empty
  string. The lookup of a name and the creation of its row are two transactions on
  two connections, so another process can commit between them: \<open>other_c\<close> and
  \<open>other_p\<close> are what other processes do to the store at these two points. When
  \<^verbatim>\<open>add_context\<close> reports a failure the code leaves \<^verbatim>\<open>context_id\<close> at \<^verbatim>\<open>None\<close> and
  goes on. The INSERT raises when \<^verbatim>\<open>description\<close> is \<^verbatim>\<open>None\<close> (the column is NOT
  NULL); the handler returns the failure. \<open>ts\<close> is CURRENT_TIMESTAMP.
\<close>

definition add_task_racing ::
  "(store \<Rightarrow> store) \<Rightarrow> (store \<Rightarrow> store) \<Rightarrow> store \<Rightarrow> string \<Rightarrow> string option \<Rightarrow>
   string option \<Rightarrow> string option \<Rightarrow> string option \<Rightarrow> string option \<Rightarrow>
   (error + joined_task option) \<times> store" where
  "add_task_racing other_c other_p st ts descr prio due cname pname =
     (let (cid, st1) =
            (case cname of None \<Rightarrow> (None, st)
             | Some n \<Rightarrow>
                 if n = [] then (None, st)
                 else (case get_context_by_name st n of
                         Some c \<Rightarrow> (Some (row_id c), st)
                       | None \<Rightarrow>
                           (case add_context (other_c st) n of
                              (Inr r, s) \<Rightarrow> (Some (row_id r), s)
                            | (Inl e, s) \<Rightarrow> (None, s))));
          (pid, st2) =
            (case pname of None \<Rightarrow> (None, st1)
             | Some n \<Rightarrow>
                 if n = [] then (None, st1)
                 else (case get_project_by_name st1 n of
                         Some p \<Rightarrow> (Some (row_id p), st1)
                       | None \<Rightarrow>
                           (case add_project (other_p st1) n of
                              (Inr r, s) \<Rightarrow> (Some (row_id r), s)
                            | (Inl e, s) \<Rightarrow> (None, s))))
      in case descr of
           None \<Rightarrow> (Inl (DbFailure ''NOT NULL constraint failed: tasks.description''), st2)
         | Some d \<Rightarrow>
             let i = next_rowid (tasks_seq st2) (map task_id (tasks st2));
                 r = \<lparr>task_id = i, description = d, priority = prio, due_date_time = due,
                      context_id = cid, project_id = pid, created_at = ts,
                      completed = False\<rparr>;
                 st3 = st2\<lparr>tasks := tasks st2 @ [r], tasks_seq := i\<rparr>
             in (Inr (get_task st3 i), st3))"

text \<open>\<^verbatim>\<open>add_task\<close> when no other process writes to the database meanwhile.\<close>

definition add_task ::
  "store \<Rightarrow> string \<Rightarrow> string option \<Rightarrow> string option \<Rightarrow> string option \<Rightarrow> string option \<Rightarrow>
   string option \<Rightarrow> (error + joined_task option) \<times> store" where
  "add_task = add_task_racing (\<lambda>s. s) (\<lambda>s. s)"

text \<open>
  The arguments of \<^verbatim>\<open>list_tasks\<close>, with the defaults of the source in
  \<open>default_filter\<close>. (\<open>by_priority\<close>, \<open>by_context\<close>, \<open>by_project\<close> and
  \<open>only_completed\<close> are the arguments \<^verbatim>\<open>priority\<close>, \<^verbatim>\<open>context_name\<close>,
  \<^verbatim>\<open>project_name\<close> and \<^verbatim>\<open>completed\<close>.) \<^verbatim>\<open>due_range\<close> is a pair of bounds, each a
  string or \<^verbatim>\<open>None\<close>.
\<close>

record task_filter =
  all_tasks :: bool
  by_priority :: "string option"
  due_range :: "(string option \<times> string option) option"
  by_context :: "string option"
  by_project :: "string option"
  overdue :: bool
  only_completed :: bool

definition default_filter :: task_filter where
  "default_filter = \<lparr>all_tasks = False, by_priority = None, due_range = None,
     by_context = None, by_project = None, overdue = False, only_completed = False\<rparr>"

text \<open>
  SQL comparisons with a column that may be NULL: the result is NULL, so the row is left
  out, when an operand is NULL. \<open>sql_eq\<close> is \<^verbatim>\<open>col = ?\<close> with a string parameter,
  \<open>sql_lt\<close> is \<^verbatim>\<open>col < ?\<close>, \<open>sql_between\<close> is \<^verbatim>\<open>col BETWEEN ? AND ?\<close>, whose
  parameters may be NULL too.
\<close>

definition sql_eq :: "string option \<Rightarrow> string \<Rightarrow> bool" where
  "sql_eq col v = (case col of None \<Rightarrow> False | Some x \<Rightarrow> x = v)"

definition sql_lt :: "string option \<Rightarrow> string \<Rightarrow> bool" where
  "sql_lt col v = (case col of None \<Rightarrow> False | Some x \<Rightarrow> x < v)"

definition sql_between :: "string option \<Rightarrow> string option \<Rightarrow> string option \<Rightarrow> bool" where
  "sql_between col lo hi =
     (case (col, lo, hi) of (Some x, Some a, Some b) \<Rightarrow> a \<le> x \<and> x \<le> b | _ \<Rightarrow> False)"

text \<open>
  The WHERE clause \<^verbatim>\<open>list_tasks\<close> builds; \<open>now\<close> is
  \<^verbatim>\<open>datetime.now().strftime("%Y-%m-%d %H:%M:%S")\<close>.
\<close>

definition where_clause :: "string \<Rightarrow> task_filter \<Rightarrow> joined_task \<Rightarrow> bool" where
  "where_clause now f j =
     ((\<not> all_tasks f \<and> \<not> only_completed f \<longrightarrow> \<not> completed (task j))
      \<and> (only_completed f \<longrightarrow> completed (task j))
      \<and> (case by_priority f of None \<Rightarrow> True
         | Some p \<Rightarrow> p \<noteq> [] \<longrightarrow> sql_eq (priority (task j)) p)
      \<and> (case due_range f of None \<Rightarrow> True
         | Some (lo, hi) \<Rightarrow> sql_between (due_date_time (task j)) lo hi)
      \<and> (case by_context f of None \<Rightarrow> True
         | Some n \<Rightarrow> n \<noteq> [] \<longrightarrow> sql_eq (context_name j) n)
      \<and> (case by_project f of None \<Rightarrow> True
         | Some n \<Rightarrow> n \<noteq> [] \<longrightarrow> sql_eq (project_name j) n)
      \<and> (overdue f \<longrightarrow> sql_lt (due_date_time (task j)) now \<and> \<not> completed (task j)))"

text \<open>
  How ORDER BY compares two values of a TEXT column, ascending: NULL is smaller than
  every value, and two strings compare byte by byte.
\<close>

fun sql_le :: "string option \<Rightarrow> string option \<Rightarrow> bool" where
  "sql_le None _ = True"
| "sql_le (Some a) None = False"
| "sql_le (Some a) (Some b) = (a \<le> b)"

text \<open>\<^verbatim>\<open>ORDER BY t.due_date_time ASC, t.priority DESC, t.id ASC\<close>: is \<open>a\<close> before \<open>b\<close>?\<close>

definition task_order :: "joined_task \<Rightarrow> joined_task \<Rightarrow> bool" where
  "task_order a b =
     (if due_date_time (task a) \<noteq> due_date_time (task b)
      then sql_le (due_date_time (task a)) (due_date_time (task b))
      else if priority (task a) \<noteq> priority (task b)
      then sql_le (priority (task b)) (priority (task a))
      else task_id (task a) \<le> task_id (task b))"

text \<open>Sorting the selected rows, by insertion.\<close>

fun insert_row :: "('a \<Rightarrow> 'a \<Rightarrow> bool) \<Rightarrow> 'a \<Rightarrow> 'a list \<Rightarrow> 'a list" where
  "insert_row le x [] = [x]"
| "insert_row le x (y # ys) = (if le x y then x # y # ys else y # insert_row le x ys)"

definition order_by :: "('a \<Rightarrow> 'a \<Rightarrow> bool) \<Rightarrow> 'a list \<Rightarrow> 'a list" where
  "order_by le xs = foldr (insert_row le) xs []"

definition list_tasks :: "store \<Rightarrow> datetime \<Rightarrow> task_filter \<Rightarrow> joined_task list" where
  "list_tasks st now f =
     order_by task_order (filter (where_clause (strftime now) f) (map (join st) (tasks st)))"

text \<open>
  \<^verbatim>\<open>mark_task_done\<close>: \<^verbatim>\<open>UPDATE tasks SET completed = 1 WHERE id = ?\<close>;
  \<^verbatim>\<open>cursor.rowcount\<close> is the number of rows the WHERE clause selected, whatever they
  held before.
\<close>

definition mark_task_done :: "store \<Rightarrow> int \<Rightarrow> (error + unit) \<times> store" where
  "mark_task_done st i =
     (let rowcount = length (filter (\<lambda>r. task_id r = i) (tasks st));
          st' = st\<lparr>tasks := map (\<lambda>r. if task_id r = i then r\<lparr>completed := True\<rparr> else r)
                              (tasks st)\<rparr>
      in if rowcount > 0 then (Inr (), st') else (Inl (TaskNotFound i), st'))"

text \<open>
  \<^verbatim>\<open>edit_task\<close>. The block for \<^verbatim>\<open>context_name\<close> (and the one for
  \<^verbatim>\<open>project_name\<close>) gives: a failure to return at once; or no update of the column
  (\<open>None\<close>); or the value to store in it (\<open>Some\<close>), which is NULL for the empty
  string.
\<close>

definition edit_context :: "store \<Rightarrow> string option \<Rightarrow> (error + int option option) \<times> store" where
  "edit_context st cname =
     (case cname of None \<Rightarrow> (Inr None, st)
      | Some n \<Rightarrow>
          if n \<noteq> [] then
            (case get_context_by_name st n of
               None \<Rightarrow>
                 (case add_context st n of
                    (Inr r, s) \<Rightarrow> (Inr (Some (Some (row_id r))), s)
                  | (Inl e, s) \<Rightarrow> (Inl e, s))
             | Some c \<Rightarrow> (Inr (Some (Some (row_id c))), st))
          else (Inr (Some None), st))"

definition edit_project :: "store \<Rightarrow> string option \<Rightarrow> (error + int option option) \<times> store" where
  "edit_project st pname =
     (case pname of None \<Rightarrow> (Inr None, st)
      | Some n \<Rightarrow>
          if n \<noteq> [] then
            (case get_project_by_name st n of
               None \<Rightarrow>
                 (case add_project st n of
                    (Inr r, s) \<Rightarrow> (Inr (Some (Some (row_id r))), s)
                  | (Inl e, s) \<Rightarrow> (Inl e, s))
             | Some p \<Rightarrow> (Inr (Some (Some (row_id p))), st))
          else (Inr (Some None), st))"

text \<open>The SET list of the UPDATE: a column is assigned when its update was collected.\<close>

definition apply_updates ::
  "string option \<Rightarrow> string option \<Rightarrow> string option \<Rightarrow> int option option \<Rightarrow>
   int option option \<Rightarrow> task_row \<Rightarrow> task_row" where
  "apply_updates descr prio due cupd pupd r =
     r\<lparr>description := (case descr of None \<Rightarrow> description r | Some d \<Rightarrow> d),
       priority := (case prio of None \<Rightarrow> priority r | Some p \<Rightarrow> Some p),
       due_date_time := (case due of None \<Rightarrow> due_date_time r | Some d \<Rightarrow> Some d),
       context_id := (case cupd of None \<Rightarrow> context_id r | Some c \<Rightarrow> c),
       project_id := (case pupd of None \<Rightarrow> project_id r | Some p \<Rightarrow> p)\<rparr>"

definition edit_task ::
  "store \<Rightarrow> int \<Rightarrow> string option \<Rightarrow> string option \<Rightarrow> string option \<Rightarrow> string option \<Rightarrow>
   string option \<Rightarrow> (error + joined_task option) \<times> store" where
  "edit_task st i descr prio due cname pname =
     (case get_task st i of
        None \<Rightarrow> (Inl (TaskNotFound i), st)
      | Some current_task \<Rightarrow>
          (case edit_context st cname of
             (Inl e, st1) \<Rightarrow> (Inl e, st1)
           | (Inr cupd, st1) \<Rightarrow>
               (case edit_project st1 pname of
                  (Inl e, st2) \<Rightarrow> (Inl e, st2)
                | (Inr pupd, st2) \<Rightarrow>
                    if descr = None \<and> prio = None \<and> due = None \<and> cupd = None \<and> pupd = None
                    then (Inl NoUpdates, st2)
                    else
                      let rowcount = length (filter (\<lambda>r. task_id r = i) (tasks st2));
                          st3 = st2\<lparr>tasks :=
                                  map (\<lambda>r. if task_id r = i
                                            then apply_updates descr prio due cupd pupd r
                                            else r) (tasks st2)\<rparr>
                      in if rowcount > 0 then (Inr (get_task st3 i), st3)
                         else (Inl (TaskNotFound i), st3))))"

section \<open>Date resolution and display (utils.py)\<close>

subsection \<open>The calendar of the datetime library\<close>

text \<open>
  The proleptic Gregorian calendar as \<^verbatim>\<open>datetime.date\<close> computes with it:
  \<^verbatim>\<open>toordinal()\<close> numbers the days from 0001-01-01, which is day 1, and
  \<^verbatim>\<open>weekday()\<close> is 0 on Mondays.
\<close>

definition is_leap :: "nat \<Rightarrow> bool" where
  "is_leap y \<longleftrightarrow> y mod 4 = 0 \<and> (y mod 100 \<noteq> 0 \<or> y mod 400 = 0)"

definition days_in_month :: "nat \<Rightarrow> nat \<Rightarrow> nat" where
  "days_in_month y m =
     (if m = 2 then (if is_leap y then 29 else 28)
      else if m = 4 \<or> m = 6 \<or> m = 9 \<or> m = 11 then 30 else 31)"

definition days_before_year :: "nat \<Rightarrow> nat" where
  "days_before_year y = (y - 1) * 365 + (y - 1) div 4 - (y - 1) div 100 + (y - 1) div 400"

definition days_before_month :: "nat \<Rightarrow> nat \<Rightarrow> nat" where
  "days_before_month y m =
     [0, 31, 59, 90, 120, 151, 181, 212, 243, 273, 304, 334] ! (m - 1)
       + (if 2 < m \<and> is_leap y then 1 else 0)"

definition toordinal :: "datetime \<Rightarrow> nat" where
  "toordinal dt = days_before_year (year dt) + days_before_month (year dt) (month dt) + day dt"

definition weekday :: "datetime \<Rightarrow> nat" where
  "weekday dt = (toordinal dt + 6) mod 7"

subsection \<open>Reading a stored timestamp\<close>

text \<open>
  \<^verbatim>\<open>datetime.datetime.strptime(date_str, "%Y-%m-%d %H:%M:%S")\<close>, with \<open>None\<close> for the
  \<^verbatim>\<open>ValueError\<close> it raises. The library matches the text against a pattern: four
  digits for the year; one or two digits for each other field, within the range of
  the field (the day may also be a space and one digit); one or more white-space
  characters between date and time; nothing after the seconds. It then builds the
  value, which fails for the year 0, for a day the month does not have and for the
  seconds 60 and 61 that the pattern admits. Only ASCII digits are read here.
\<close>

definition is_digit :: "char \<Rightarrow> bool" where
  "is_digit c \<longleftrightarrow> CHR ''0'' \<le> c \<and> c \<le> CHR ''9''"

definition is_space :: "char \<Rightarrow> bool" where
  "is_space c \<longleftrightarrow>
     c \<in> set [CHR '' '', CHR 0x09, CHR 0x0A, CHR 0x0B, CHR 0x0C, CHR 0x0D,
                CHR 0x1C, CHR 0x1D, CHR 0x1E, CHR 0x1F]"

definition read_digits :: "string \<Rightarrow> nat" where
  "read_digits ds = foldl (\<lambda>n c. 10 * n + (of_char c - 48)) 0 ds"

text \<open>
  A run of digits of a length between \<open>minlen\<close> and \<open>maxlen\<close> with a value between
  \<open>lo\<close> and \<open>hi\<close>, and the text after it.
\<close>

definition number_field :: "nat \<Rightarrow> nat \<Rightarrow> nat \<Rightarrow> nat \<Rightarrow> string \<Rightarrow> (nat \<times> string) option" where
  "number_field minlen maxlen lo hi s =
     (let ds = takeWhile is_digit s; n = read_digits ds
      in if minlen \<le> length ds \<and> length ds \<le> maxlen \<and> lo \<le> n \<and> n \<le> hi
         then Some (n, dropWhile is_digit s) else None)"

definition day_field :: "string \<Rightarrow> (nat \<times> string) option" where
  "day_field s =
     (case s of
        c # d # rest \<Rightarrow>
          if c = CHR '' '' then
            (if CHR ''1'' \<le> d \<and> d \<le> CHR ''9'' then Some (of_char d - 48, rest) else None)
          else number_field 1 2 1 31 s
      | _ \<Rightarrow> number_field 1 2 1 31 s)"

definition expect :: "char \<Rightarrow> string \<Rightarrow> string option" where
  "expect c s = (case s of [] \<Rightarrow> None | x # rest \<Rightarrow> if x = c then Some rest else None)"

definition spaces :: "string \<Rightarrow> string option" where
  "spaces s = (case s of [] \<Rightarrow> None
               | x # rest \<Rightarrow> if is_space x then Some (dropWhile is_space rest) else None)"

definition strptime :: "string \<Rightarrow> datetime option" where
  "strptime s =
     Option.bind (number_field 4 4 0 9999 s) (\<lambda>(y, s1).
     Option.bind (expect (CHR ''-'') s1) (\<lambda>s2.
     Option.bind (number_field 1 2 1 12 s2) (\<lambda>(m, s3).
     Option.bind (expect (CHR ''-'') s3) (\<lambda>s4.
     Option.bind (day_field s4) (\<lambda>(d, s5).
     Option.bind (spaces s5) (\<lambda>s6.
     Option.bind (number_field 1 2 0 23 s6) (\<lambda>(h, s7).
     Option.bind (expect (CHR '':'') s7) (\<lambda>s8.
     Option.bind (number_field 1 2 0 59 s8) (\<lambda>(mi, s9).
     Option.bind (expect (CHR '':'') s9) (\<lambda>s10.
     Option.bind (number_field 1 2 0 61 s10) (\<lambda>(sec, s11).
       if s11 = [] \<and> 1 \<le> y \<and> d \<le> days_in_month y m \<and> sec \<le> 59
       then Some \<lparr>year = y, month = m, day = d, hour = h, minute = mi, second = sec\<rparr>
       else None)))))))))))"

subsection \<open>Writing a date for display\<close>

text \<open>
  The pieces of \<^verbatim>\<open>strftime\<close> that \<^verbatim>\<open>format_relative_date\<close> uses, in the C locale:
  \<^verbatim>\<open>%A\<close> and \<^verbatim>\<open>%b\<close> are the English names, \<^verbatim>\<open>%p\<close> is AM or PM, \<^verbatim>\<open>%I\<close> is
  the hour on the twelve-hour clock with two digits.
\<close>

definition day_name :: "datetime \<Rightarrow> string" where
  "day_name dt = [''Monday'', ''Tuesday'', ''Wednesday'', ''Thursday'', ''Friday'', ''Saturday'',
                  ''Sunday''] ! weekday dt"

definition month_abbr :: "datetime \<Rightarrow> string" where
  "month_abbr dt = [''Jan'', ''Feb'', ''Mar'', ''Apr'', ''May'', ''Jun'', ''Jul'', ''Aug'', ''Sep'',
                    ''Oct'', ''Nov'', ''Dec''] ! (month dt - 1)"

text \<open>\<^verbatim>\<open>dt.strftime("%I:%M %p")\<close>.\<close>

definition clock12 :: "datetime \<Rightarrow> string" where
  "clock12 dt =
     zfill 2 (show_nat (if hour dt mod 12 = 0 then 12 else hour dt mod 12)) @ '':''
       @ zfill 2 (show_nat (minute dt)) @ '' '' @ (if hour dt < 12 then ''AM'' else ''PM'')"

text \<open>\<^verbatim>\<open>s.lstrip("0")\<close>.\<close>

definition lstrip0 :: "string \<Rightarrow> string" where
  "lstrip0 s = dropWhile (\<lambda>c. c = CHR ''0'') s"

text \<open>\<^verbatim>\<open>s.replace(" 0", " ")\<close>: every occurrence, from the left, without overlap.\<close>

fun replace_space0 :: "string \<Rightarrow> string" where
  "replace_space0 (a # b # cs) =
     (if a = CHR '' '' \<and> b = CHR ''0'' then CHR '' '' # replace_space0 cs
      else a # replace_space0 (b # cs))"
| "replace_space0 cs = cs"

text \<open>
  \<^verbatim>\<open>dt.strftime("%b %d, %Y at %I:%M %p").lstrip("0").replace(" 0", " ")\<close>.
\<close>

definition absolute_date :: "datetime \<Rightarrow> string" where
  "absolute_date dt =
     replace_space0 (lstrip0 (month_abbr dt @ '' '' @ zfill 2 (show_nat (day dt)) @ '', ''
        @ zfill 4 (show_nat (year dt)) @ '' at '' @ clock12 dt))"

text \<open>
  \<^verbatim>\<open>format_relative_date\<close>; \<open>now\<close> is \<^verbatim>\<open>datetime.datetime.now()\<close>. \<^verbatim>\<open>if not date_str\<close>
  holds for \<^verbatim>\<open>None\<close> and for the empty string. \<open>days_diff\<close> is
  \<^verbatim>\<open>(dt.date() - now.date()).days\<close>.
\<close>

definition format_relative_date :: "datetime \<Rightarrow> string option \<Rightarrow> string" where
  "format_relative_date now date_str =
     (case date_str of
        None \<Rightarrow> ''No due date''
      | Some s \<Rightarrow>
          if s = [] then ''No due date''
          else
            (case strptime s of
               None \<Rightarrow> ''Invalid date''
             | Some dt \<Rightarrow>
                 let days_diff = int (toordinal dt) - int (toordinal now);
                     hour_str = lstrip0 (clock12 dt)
                 in if days_diff = 0 then ''Today at '' @ hour_str
                    else if days_diff = 1 then ''Tomorrow at '' @ hour_str
                    else if days_diff = - 1 then ''Yesterday at '' @ hour_str
                    else if 1 < days_diff \<and> days_diff < 7
                      then day_name dt @ '' at '' @ hour_str
                    else if - 7 < days_diff \<and> days_diff < 0
                      then show_nat (nat \<bar>days_diff\<bar>) @ '' days ago''
                    else absolute_date dt))"

subsection \<open>Resolving a date from text\<close>

text \<open>
  What \<^verbatim>\<open>dateutil.parser.parse\<close> does with a text: a point in time, the
  \<^verbatim>\<open>ValueError\<close> or \<^verbatim>\<open>ParserError\<close> of a text it cannot read, or another exception.
\<close>

datatype parse_result = Parsed datetime | ParserError | OtherError

text \<open>
  The collaborators of \<^verbatim>\<open>extract_date_time\<close>: the parser with \<^verbatim>\<open>fuzzy=True\<close> and
  without, whether \<^verbatim>\<open>initialize_gemini()\<close> succeeds, and the text the model returns
  for the prompt built from a text (\<open>None\<close> when the call raises).
\<close>

record date_env =
  parse_fuzzy :: "string \<Rightarrow> parse_result"
  parse_plain :: "string \<Rightarrow> parse_result"
  gemini_available :: bool
  gemini_response :: "string \<Rightarrow> string option"

text \<open>\<^verbatim>\<open>s.strip()\<close>.\<close>

definition strip :: "string \<Rightarrow> string" where
  "strip s = rev (dropWhile is_space (rev (dropWhile is_space s)))"

text \<open>
  \<^verbatim>\<open>extract_date_time\<close>. A parse that gives the time 00:00:00 is moved to 23:59:59;
  the code has the parsed value only, not whether the text named a time.
\<close>

definition extract_date_time :: "date_env \<Rightarrow> string option \<Rightarrow> string option" where
  "extract_date_time env natural_language_date =
     (case natural_language_date of
        None \<Rightarrow> None
      | Some text \<Rightarrow>
          if text = [] then None
          else
            (case parse_fuzzy env text of
               Parsed dt \<Rightarrow>
                 Some (strftime (if hour dt = 0 \<and> minute dt = 0 \<and> second dt = 0
                                 then dt\<lparr>hour := 23, minute := 59, second := 59\<rparr> else dt))
             | OtherError \<Rightarrow> None
             | ParserError \<Rightarrow>
                 if \<not> gemini_available env then None
                 else
                   (case gemini_response env text of
                      None \<Rightarrow> None
                    | Some response \<Rightarrow>
                        let response_text = strip response
                        in if response_text = ''None'' then None
                           else (case parse_plain env response_text of
                                   Parsed dt \<Rightarrow> Some (strftime dt)
                                 | _ \<Rightarrow> None))))"

section \<open>Example data\<close>

definition empty_store :: store where
  "empty_store = \<lparr>contexts = [], projects = [], tasks = [],
     contexts_seq = 0, projects_seq = 0, tasks_seq = 0\<rparr>"

definition mk_task :: "int \<Rightarrow> string option \<Rightarrow> string option \<Rightarrow> bool \<Rightarrow> task_row" where
  "mk_task i due prio done =
     \<lparr>task_id = i, description = ''task'', priority = prio, due_date_time = due,
      context_id = None, project_id = None, created_at = ''2024-01-01 09:00:00'',
      completed = done\<rparr>"

text \<open>
  The three tasks of the specification's ordering example: (id 1, due 2024-02-01,
  low), (id 2, due 2024-02-01, high), (id 3, no due date, high).
\<close>

definition three_tasks :: store where
  "three_tasks = empty_store\<lparr>tasks :=
     [mk_task 1 (Some ''2024-02-01 23:59:59'') (Some ''low'') False,
      mk_task 2 (Some ''2024-02-01 23:59:59'') (Some ''high'') False,
      mk_task 3 None (Some ''high'') False], tasks_seq := 3\<rparr>"

text \<open>The same with a fourth task that ties with task 1 on due date and priority.\<close>

definition four_tasks :: store where
  "four_tasks = three_tasks\<lparr>tasks := tasks three_tasks @
     [mk_task 4 (Some ''2024-02-01 23:59:59'') (Some ''low'') False], tasks_seq := 4\<rparr>"

definition noon :: datetime where
  "noon = \<lparr>year = 2024, month = 3, day = 10, hour = 12, minute = 0, second = 0\<rparr>"

text \<open>
  Another process that runs \<^verbatim>\<open>add_context("work")\<close> and commits.
\<close>

definition racing_writer :: "store \<Rightarrow> store" where
  "racing_writer s = snd (add_context s ''work'')"

text \<open>A store with one task that has a context and a project, and its joined row.\<close>

definition linked_store :: store where
  "linked_store = \<lparr>contexts = [\<lparr>row_id = 1, row_name = ''work''\<rparr>],
     projects = [\<lparr>row_id = 1, row_name = ''thesis''\<rparr>],
     tasks = [(mk_task 1 (Some ''2024-02-01 23:59:59'') (Some ''low'') False)
                \<lparr>context_id := Some 1, project_id := Some 1\<rparr>],
     contexts_seq = 1, projects_seq = 1, tasks_seq = 1\<rparr>"

definition linked_task :: joined_task where
  "linked_task = \<lparr>task = (mk_task 1 (Some ''2024-02-01 23:59:59'') (Some ''low'') False)
                           \<lparr>context_id := Some 1, project_id := Some 1\<rparr>,
                  context_name = Some ''work'', project_name = Some ''thesis''\<rparr>"

text \<open>
  A parser that reads the canonical timestamps \<^verbatim>\<open>YYYY-MM-DD HH:MM:SS\<close>, as
  \<^verbatim>\<open>dateutil\<close> reads them, and the dates \<^verbatim>\<open>YYYY-MM-DD\<close>, to which \<^verbatim>\<open>dateutil\<close>
  gives the time 00:00:00; and an environment with this parser and no model.
\<close>

definition canonical_parser :: "string \<Rightarrow> parse_result" where
  "canonical_parser s =
     (case strptime s of
        Some dt \<Rightarrow> Parsed dt
      | None \<Rightarrow> (case strptime (s @ '' 00:00:00'') of Some dt \<Rightarrow> Parsed dt
                                                      | None \<Rightarrow> ParserError))"

definition canonical_env :: date_env where
  "canonical_env = \<lparr>parse_fuzzy = canonical_parser, parse_plain = canonical_parser,
     gemini_available = False, gemini_response = (\<lambda>text. None)\<rparr>"

section \<open>Properties\<close>

subsection \<open>Lookups\<close>

lemma find_None_iff_names: "find (\<lambda>r. row_name r = n) rs = None \<longleftrightarrow> n \<notin> row_name ` set rs"
  by (induction rs) auto

lemma find_append_new:
  "n \<notin> row_name ` set rs \<Longrightarrow> find (\<lambda>r. row_name r = n) (rs @ [\<lparr>row_id = i, row_name = n\<rparr>])
     = Some \<lparr>row_id = i, row_name = n\<rparr>"
  by (induction rs) auto

subsection \<open>Sorting\<close>

lemma set_insert_row: "set (insert_row le x xs) = insert x (set xs)"
  by (induction xs) auto

lemma sorted_insert_row:
  assumes total: "\<And>a b. le a b \<or> le b a" and trans: "\<And>a b c. le a b \<Longrightarrow> le b c \<Longrightarrow> le a c"
  shows "sorted_wrt le xs \<Longrightarrow> sorted_wrt le (insert_row le x xs)"
proof (induction xs)
  case Nil
  then show ?case by simp
next
  case (Cons y ys)
  show ?case
  proof (cases "le x y")
    case True
    with Cons.prems trans show ?thesis by auto
  next
    case False
    with total have "le y x" by blast
    with Cons False show ?thesis by (auto simp: set_insert_row)
  qed
qed

lemma sorted_order_by:
  assumes "\<And>a b. le a b \<or> le b a" and "\<And>a b c. le a b \<Longrightarrow> le b c \<Longrightarrow> le a c"
  shows "sorted_wrt le (order_by le xs)"
proof (induction xs)
  case Nil
  then show ?case by (simp add: order_by_def)
next
  case (Cons x xs)
  have "order_by le (x # xs) = insert_row le x (order_by le xs)"
    by (simp add: order_by_def)
  with Cons sorted_insert_row [of le, OF assms] show ?case by simp
qed

lemma sql_le_total: "sql_le a b \<or> sql_le b a"
  by (cases a; cases b) auto

lemma sql_le_trans: "sql_le a b \<Longrightarrow> sql_le b c \<Longrightarrow> sql_le a c"
  by (cases a; cases b; cases c) auto

lemma sql_le_antisym: "sql_le a b \<Longrightarrow> sql_le b a \<Longrightarrow> a = b"
  by (cases a; cases b) auto

lemma sql_le_refl: "sql_le a a"
  by (cases a) auto

lemma task_order_total: "task_order a b \<or> task_order b a"
  using sql_le_total [of "due_date_time (task a)" "due_date_time (task b)"]
        sql_le_total [of "priority (task a)" "priority (task b)"]
  by (auto simp: task_order_def)

lemma task_order_trans:
  assumes "task_order a b" and "task_order b c"
  shows "task_order a c"
proof -
  have d: "sql_le (due_date_time (task a)) (due_date_time (task b))"
          "sql_le (due_date_time (task b)) (due_date_time (task c))"
    using assms by (auto simp: task_order_def sql_le_refl split: if_splits)
  show ?thesis
  proof (cases "due_date_time (task a) = due_date_time (task c)")
    case False
    then show ?thesis using d sql_le_trans by (auto simp: task_order_def)
  next
    case True
    then have ab: "due_date_time (task a) = due_date_time (task b)"
      using d sql_le_antisym by auto
    with True have bc: "due_date_time (task b) = due_date_time (task c)" by simp
    have p: "sql_le (priority (task b)) (priority (task a))"
            "sql_le (priority (task c)) (priority (task b))"
      using assms ab bc by (auto simp: task_order_def sql_le_refl split: if_splits)
    show ?thesis
    proof (cases "priority (task a) = priority (task c)")
      case False
      then show ?thesis using True p sql_le_trans by (auto simp: task_order_def)
    next
      case pT: True
      then have "priority (task a) = priority (task b)"
        using p sql_le_antisym by auto
      with pT True ab bc assms show ?thesis by (auto simp: task_order_def)
    qed
  qed
qed

text \<open>The listing is sorted by the comparison of the ORDER BY clause.\<close>

lemma list_tasks_sorted_order_by: "sorted_wrt task_order (list_tasks st now f)"
  unfolding list_tasks_def
proof (rule sorted_order_by)
  show "task_order a b \<or> task_order b a" for a b by (rule task_order_total)
  show "task_order a b \<Longrightarrow> task_order b c \<Longrightarrow> task_order a c" for a b c
    by (rule task_order_trans)
qed

subsection \<open>Contexts\<close>

text \<open>
  Claim C6. For a name that no context row holds, \<open>add_context\<close> succeeds with a row of
  that name, \<open>get_context_by_name\<close> then returns this row, and a second \<open>add_context\<close>
  of the same name fails with the already-exists error and returns the store as it was
  after the first call.
\<close>

theorem add_context_then_find:
  assumes "n \<notin> row_name ` set (contexts st)"
  shows "\<exists>r st1. add_context st n = (Inr r, st1) \<and> row_name r = n
           \<and> get_context_by_name st1 n = Some r
           \<and> add_context st1 n = (Inl (ContextExists n), st1)"
  using assms
  by (simp add: add_context_def get_context_by_name_def Let_def find_append_new)

theorem add_context_then_find_witness:
  "''work'' \<notin> row_name ` set (contexts empty_store)
   \<and> (\<exists>r st1. add_context empty_store ''work'' = (Inr r, st1) \<and> row_name r = ''work''
           \<and> get_context_by_name st1 ''work'' = Some r
           \<and> add_context st1 ''work'' = (Inl (ContextExists ''work''), st1))"
  using add_context_then_find [of "''work''" empty_store]
  by (simp add: empty_store_def)

subsection \<open>The order of the listing\<close>

text \<open>
  Claim C1, as the code has it. The claim's order (null due dates last, high before
  medium before low) is not the order of the query: for the three tasks of the
  specification's example \<open>list_tasks\<close> returns id 3, id 1, id 2.
\<close>

theorem list_tasks_order_counterexample:
  "map (task_id \<circ> task) (list_tasks three_tasks noon default_filter) = [3, 1, 2]
   \<and> map (task_id \<circ> task) (list_tasks three_tasks noon default_filter) \<noteq> [2, 1, 3]"
  by code_simp

text \<open>
  Claim C1, amended. For every store and every filter the rows \<open>list_tasks\<close> returns
  are in ascending order of \<open>due_date_time\<close>, a null due date before every other; rows
  with the same due date and the same priority are in ascending order of id. For the
  three tasks of the example, the task without due date (id 3) comes first.
\<close>

theorem list_tasks_sorted:
  "sorted_wrt (\<lambda>a b. sql_le (due_date_time (task a)) (due_date_time (task b))
                 \<and> (due_date_time (task a) = due_date_time (task b)
                      \<and> priority (task a) = priority (task b)
                    \<longrightarrow> task_id (task a) \<le> task_id (task b)))
     (list_tasks st now f)
   \<and> task_id (task (hd (list_tasks three_tasks now default_filter))) = 3"
proof
  show "sorted_wrt (\<lambda>a b. sql_le (due_date_time (task a)) (due_date_time (task b))
                 \<and> (due_date_time (task a) = due_date_time (task b)
                      \<and> priority (task a) = priority (task b)
                    \<longrightarrow> task_id (task a) \<le> task_id (task b)))
     (list_tasks st now f)"
    by (rule sorted_wrt_mono_rel [OF _ list_tasks_sorted_order_by])
       (auto simp: task_order_def sql_le_refl split: if_splits)
  show "task_id (task (hd (list_tasks three_tasks now default_filter))) = 3"
    by (simp add: list_tasks_def three_tasks_def empty_store_def mk_task_def default_filter_def
          where_clause_def join_def joined_name_def order_by_def task_order_def)
qed

theorem list_tasks_sorted_witness:
  "sorted_wrt (\<lambda>a b. sql_le (due_date_time (task a)) (due_date_time (task b))
                 \<and> (due_date_time (task a) = due_date_time (task b)
                      \<and> priority (task a) = priority (task b)
                    \<longrightarrow> task_id (task a) \<le> task_id (task b)))
     (list_tasks four_tasks noon default_filter)
   \<and> map (task_id \<circ> task) (list_tasks four_tasks noon default_filter) = [3, 1, 4, 2]"
proof
  show "sorted_wrt (\<lambda>a b. sql_le (due_date_time (task a)) (due_date_time (task b))
                 \<and> (due_date_time (task a) = due_date_time (task b)
                      \<and> priority (task a) = priority (task b)
                    \<longrightarrow> task_id (task a) \<le> task_id (task b)))
     (list_tasks four_tasks noon default_filter)"
    using list_tasks_sorted [of four_tasks noon default_filter] by simp
  show "map (task_id \<circ> task) (list_tasks four_tasks noon default_filter) = [3, 1, 4, 2]"
    by code_simp
qed

subsection \<open>Marking a task done\<close>

lemma map_update_absent:
  "i \<notin> task_id ` set rs \<Longrightarrow> map (\<lambda>r. if task_id r = i then g r else r) rs = rs"
  by (induction rs) auto

lemma filter_id_empty_iff: "filter (\<lambda>r. task_id r = i) rs = [] \<longleftrightarrow> i \<notin> task_id ` set rs"
  by (induction rs) auto

lemma find_map_update:
  assumes "\<And>r. task_id (g r) = task_id r"
  shows "find (\<lambda>r. task_id r = i) (map (\<lambda>r. if task_id r = i then g r else r) rs)
         = map_option g (find (\<lambda>r. task_id r = i) rs)"
  using assms by (induction rs) auto

lemma ids_map_update:
  assumes "\<And>r. task_id (g r) = task_id r"
  shows "task_id ` set (map (\<lambda>r. if task_id r = i then g r else r) rs) = task_id ` set rs"
proof -
  have "map task_id (map (\<lambda>r. if task_id r = i then g r else r) rs) = map task_id rs"
    by (induction rs) (simp_all add: assms)
  then have "set (map task_id (map (\<lambda>r. if task_id r = i then g r else r) rs)) = set (map task_id rs)"
    by (rule arg_cong)
  then show ?thesis by (simp only: set_map)
qed

lemma marked_completed:
  "\<forall>r\<in>set (map (\<lambda>r. if task_id r = i then r\<lparr>completed := True\<rparr> else r) rs).
     task_id r = i \<longrightarrow> completed r"
proof (intro ballI impI)
  fix r
  assume "r \<in> set (map (\<lambda>r. if task_id r = i then r\<lparr>completed := True\<rparr> else r) rs)"
    and i: "task_id r = i"
  then obtain r0 where r0: "r = (if task_id r0 = i then r0\<lparr>completed := True\<rparr> else r0)"
    unfolding set_map by (elim imageE)
  show "completed r"
  proof (cases "task_id r0 = i")
    case True
    with r0 show ?thesis by simp
  next
    case False
    with r0 i show ?thesis by simp
  qed
qed

lemma mark_twice:
  "map (\<lambda>r. if task_id r = i then r\<lparr>completed := True\<rparr> else r)
     (map (\<lambda>r. if task_id r = i then r\<lparr>completed := True\<rparr> else r) rs)
   = map (\<lambda>r. if task_id r = i then r\<lparr>completed := True\<rparr> else r) rs"
  by (induction rs) simp_all

lemma find_id_Some_iff: "(\<exists>r. find (\<lambda>r. task_id r = i) rs = Some r) \<longleftrightarrow> i \<in> task_id ` set rs"
  by (induction rs) auto

lemma mark_task_done_eq:
  "mark_task_done st i =
     (if i \<in> task_id ` set (tasks st) then Inr () else Inl (TaskNotFound i),
      st\<lparr>tasks := map (\<lambda>r. if task_id r = i then r\<lparr>completed := True\<rparr> else r) (tasks st)\<rparr>)"
  by (simp add: mark_task_done_def Let_def filter_id_empty_iff)

text \<open>
  Claim C5. For an id that no task row has, \<open>mark_task_done\<close> fails with the
  not-found error and leaves the store as it was. For the id of a stored task,
  completed already or not, it succeeds; afterwards every row with this id is
  completed, \<open>get_task\<close> returns it completed, and marking it again succeeds and
  returns the same store.
\<close>

theorem mark_task_done_idempotent:
  "(i \<notin> task_id ` set (tasks st) \<longrightarrow> mark_task_done st i = (Inl (TaskNotFound i), st))
   \<and> (i \<in> task_id ` set (tasks st) \<longrightarrow>
        (\<exists>st'. mark_task_done st i = (Inr (), st')
           \<and> (\<forall>r\<in>set (tasks st'). task_id r = i \<longrightarrow> completed r)
           \<and> (\<exists>j. get_task st' i = Some j \<and> completed (task j))
           \<and> mark_task_done st' i = (Inr (), st')))"
proof (intro conjI impI)
  assume "i \<notin> task_id ` set (tasks st)"
  then show "mark_task_done st i = (Inl (TaskNotFound i), st)"
    by (simp add: mark_task_done_eq map_update_absent)
next
  assume in_store: "i \<in> task_id ` set (tasks st)"
  define rs' where "rs' = map (\<lambda>r. if task_id r = i then r\<lparr>completed := True\<rparr> else r) (tasks st)"
  define st' where "st' = st\<lparr>tasks := rs'\<rparr>"
  have t': "tasks st' = rs'" by (simp add: st'_def)
  have first: "mark_task_done st i = (Inr (), st')"
    using in_store unfolding mark_task_done_eq st'_def rs'_def by (simp only: if_True)
  have ids: "task_id ` set rs' = task_id ` set (tasks st)"
    unfolding rs'_def by (rule ids_map_update) simp
  have compl: "\<forall>r\<in>set (tasks st'). task_id r = i \<longrightarrow> completed r"
    unfolding t' rs'_def by (rule marked_completed)
  from in_store obtain r where r: "find (\<lambda>r. task_id r = i) (tasks st) = Some r"
    using find_id_Some_iff [of i "tasks st"] by blast
  have "find (\<lambda>r. task_id r = i) rs' = map_option (\<lambda>r. r\<lparr>completed := True\<rparr>) (find (\<lambda>r. task_id r = i) (tasks st))"
    unfolding rs'_def by (rule find_map_update) simp
  then have "find (\<lambda>r. task_id r = i) (tasks st') = Some (r\<lparr>completed := True\<rparr>)"
    by (simp only: t' r option.map)
  then have got: "\<exists>j. get_task st' i = Some j \<and> completed (task j)"
    by (simp add: get_task_def join_def)
  have again: "map (\<lambda>r. if task_id r = i then r\<lparr>completed := True\<rparr> else r) rs' = rs'"
    unfolding rs'_def by (rule mark_twice)
  have "st'\<lparr>tasks := rs'\<rparr> = st'" by (simp add: st'_def)
  then have second: "mark_task_done st' i = (Inr (), st')"
    using in_store by (simp only: mark_task_done_eq t' again ids if_True)
  show "\<exists>st'. mark_task_done st i = (Inr (), st')
           \<and> (\<forall>r\<in>set (tasks st'). task_id r = i \<longrightarrow> completed r)
           \<and> (\<exists>j. get_task st' i = Some j \<and> completed (task j))
           \<and> mark_task_done st' i = (Inr (), st')"
    using first compl got second by blast
qed

theorem mark_task_done_idempotent_witness:
  "mark_task_done three_tasks 7 = (Inl (TaskNotFound 7), three_tasks)
   \<and> (\<exists>st'. mark_task_done three_tasks 2 = (Inr (), st')
           \<and> (\<forall>r\<in>set (tasks st'). task_id r = 2 \<longrightarrow> completed r)
           \<and> (\<exists>j. get_task st' 2 = Some j \<and> completed (task j))
           \<and> mark_task_done st' 2 = (Inr (), st'))"
proof -
  have a: "7 \<notin> task_id ` set (tasks three_tasks)" and b: "2 \<in> task_id ` set (tasks three_tasks)"
    by (simp_all add: three_tasks_def empty_store_def mk_task_def)
  show ?thesis
    using mark_task_done_idempotent [of 7 three_tasks] mark_task_done_idempotent [of 2 three_tasks] a b
    by simp
qed

subsection \<open>Row ids\<close>

lemma le_fold_max: "(seq::int) \<le> fold max ids seq"
proof (induction ids arbitrary: seq)
  case Nil
  then show ?case by simp
next
  case (Cons x xs)
  have "seq \<le> max x seq" by simp
  also have "\<dots> \<le> fold max xs (max x seq)" by (rule Cons.IH)
  finally show ?case by simp
qed

lemma member_le_fold_max: "(x::int) \<in> set ids \<Longrightarrow> x \<le> fold max ids seq"
proof (induction ids arbitrary: seq)
  case Nil
  then show ?case by simp
next
  case (Cons y ys)
  show ?case
  proof (cases "x = y")
    case True
    have "x \<le> max y seq" using True by simp
    also have "\<dots> \<le> fold max ys (max y seq)" by (rule le_fold_max)
    finally show ?thesis by simp
  next
    case False
    with Cons.prems have "x \<in> set ys" by simp
    then show ?thesis using Cons.IH by simp
  qed
qed

lemma next_rowid_fresh: "next_rowid seq ids \<notin> set ids"
proof
  assume "next_rowid seq ids \<in> set ids"
  then have "next_rowid seq ids \<le> fold max ids seq" by (rule member_le_fold_max)
  then show False by (simp add: next_rowid_def)
qed

lemma find_append_fresh:
  assumes "task_id r \<notin> task_id ` set rs"
  shows "find (\<lambda>x. task_id x = task_id r) (rs @ [r]) = Some r"
  using assms by (induction rs) auto

lemma get_task_inserted:
  assumes "i = next_rowid (tasks_seq st) (map task_id (tasks st))" and "task_id r = i"
  shows "get_task (st\<lparr>tasks := tasks st @ [r], tasks_seq := i\<rparr>) i
         = Some (join (st\<lparr>tasks := tasks st @ [r], tasks_seq := i\<rparr>) r)"
proof -
  have "task_id r \<notin> task_id ` set (tasks st)"
    using next_rowid_fresh [of "tasks_seq st" "map task_id (tasks st)"] assms
    by simp
  then have "find (\<lambda>x. task_id x = task_id r) (tasks st @ [r]) = Some r"
    by (rule find_append_fresh)
  then show ?thesis using assms(2) by (simp add: get_task_def)
qed

subsection \<open>Adding a task\<close>

lemma add_project_frame:
  "add_project st n = (res, st') \<Longrightarrow> contexts st' = contexts st \<and> tasks st' = tasks st"
  by (auto simp: add_project_def Let_def split: if_splits)

lemma add_context_frame:
  "add_context st n = (res, st') \<Longrightarrow> projects st' = projects st \<and> tasks st' = tasks st"
  by (auto simp: add_context_def Let_def split: if_splits)

lemma add_task_no_names:
  "add_task st ts (Some d) prio due None None =
     (let i = next_rowid (tasks_seq st) (map task_id (tasks st));
          r = \<lparr>task_id = i, description = d, priority = prio, due_date_time = due,
               context_id = None, project_id = None, created_at = ts, completed = False\<rparr>;
          st' = st\<lparr>tasks := tasks st @ [r], tasks_seq := i\<rparr>
      in (Inr (Some (join st' r)), st'))"
  by (simp add: add_task_def add_task_racing_def Let_def get_task_inserted)

text \<open>
  Claim C10. \<open>add_task\<close> with the empty string as context name returns the same result
  and the same store as with no context name, and likewise for the project name; with
  an empty context name the context rows are unchanged, with an empty project name the
  project rows are unchanged; and with both empty a task with a description is
  inserted with null \<open>context_id\<close> and \<open>project_id\<close>, and no context or project row is
  created.
\<close>

theorem add_task_empty_name_is_absent:
  "add_task st ts descr prio due (Some []) pname = add_task st ts descr prio due None pname
   \<and> add_task st ts descr prio due cname (Some []) = add_task st ts descr prio due cname None
   \<and> contexts (snd (add_task st ts descr prio due (Some []) pname)) = contexts st
   \<and> projects (snd (add_task st ts descr prio due cname (Some []))) = projects st
   \<and> (\<exists>j st'. add_task st ts (Some d) prio due (Some []) (Some []) = (Inr (Some j), st')
         \<and> context_id (task j) = None \<and> project_id (task j) = None
         \<and> context_name j = None \<and> project_name j = None
         \<and> contexts st' = contexts st \<and> projects st' = projects st)"
proof (intro conjI)
  show a: "add_task st ts descr prio due (Some []) pname = add_task st ts descr prio due None pname"
    by (simp add: add_task_def add_task_racing_def)
  show b: "add_task st ts descr prio due cname (Some []) = add_task st ts descr prio due cname None"
    by (simp add: add_task_def add_task_racing_def)
  show "contexts (snd (add_task st ts descr prio due (Some []) pname)) = contexts st"
    by (auto simp: add_task_def add_task_racing_def Let_def dest: add_project_frame
          split: option.splits prod.splits sum.splits)
  show "projects (snd (add_task st ts descr prio due cname (Some []))) = projects st"
    by (auto simp: add_task_def add_task_racing_def Let_def dest: add_context_frame
          split: option.splits prod.splits sum.splits)
  have "add_task st ts (Some d) prio due (Some []) (Some []) = add_task st ts (Some d) prio due None None"
    by (simp add: add_task_def add_task_racing_def)
  then show "\<exists>j st'. add_task st ts (Some d) prio due (Some []) (Some []) = (Inr (Some j), st')
         \<and> context_id (task j) = None \<and> project_id (task j) = None
         \<and> context_name j = None \<and> project_name j = None
         \<and> contexts st' = contexts st \<and> projects st' = projects st"
    by (simp add: add_task_no_names Let_def join_def joined_name_def)
qed

text \<open>
  When another process creates the context between the lookup and the creation,
  \<open>add_task\<close> reports success and inserts the task with a null \<open>context_id\<close>, for
  every store and every name.
\<close>

lemma add_task_racing_lost_context:
  assumes "n \<noteq> []" and "get_context_by_name st n = None"
    and "n \<in> set (map row_name (contexts (other st)))"
  shows "\<exists>j st'. add_task_racing other (\<lambda>s. s) st ts (Some d) prio due (Some n) None
                    = (Inr (Some j), st')
           \<and> context_id (task j) = None \<and> description (task j) = d"
  using assms
  by (simp add: add_task_racing_def add_context_def Let_def get_task_inserted join_def)

text \<open>
  Claim C3, on the code. The store holds no context \<^verbatim>\<open>work\<close>; between the lookup of
  \<^verbatim>\<open>add_task\<close> and its \<^verbatim>\<open>add_context\<close> another process creates it, so the creation
  fails. \<open>add_task\<close> does not return that failure: it reports success and inserts the
  task with a null \<open>context_id\<close>.
\<close>

theorem add_task_swallows_failed_creation:
  "add_task_racing racing_writer id empty_store ''2024-03-10 12:00:00''
     (Some ''report'') None None (Some ''work'') None
   = (Inr (Some \<lparr>task = \<lparr>task_id = 1, description = ''report'', priority = None,
                          due_date_time = None, context_id = None, project_id = None,
                          created_at = ''2024-03-10 12:00:00'', completed = False\<rparr>,
                  context_name = None, project_name = None\<rparr>),
      \<lparr>contexts = [\<lparr>row_id = 1, row_name = ''work''\<rparr>], projects = [],
       tasks = [\<lparr>task_id = 1, description = ''report'', priority = None,
                 due_date_time = None, context_id = None, project_id = None,
                 created_at = ''2024-03-10 12:00:00'', completed = False\<rparr>],
       contexts_seq = 1, projects_seq = 0, tasks_seq = 1\<rparr>)"
  by (simp add: add_task_racing_def racing_writer_def add_context_def get_context_by_name_def
        empty_store_def next_rowid_def get_task_def join_def joined_name_def Let_def)

subsection \<open>Editing a task\<close>

lemma edit_context_ok:
  "\<exists>u st1. edit_context st cname = (Inr u, st1) \<and> tasks st1 = tasks st
     \<and> projects st1 = projects st \<and> (u = None \<longleftrightarrow> cname = None)
     \<and> (cname = Some [] \<longrightarrow> u = Some None \<and> st1 = st)"
proof (cases cname)
  case None
  then show ?thesis by (simp add: edit_context_def)
next
  case (Some n)
  show ?thesis
  proof (cases "get_context_by_name st n")
    case None
    then have "n \<notin> set (map row_name (contexts st))"
      by (simp add: get_context_by_name_def find_None_iff_names)
    with Some None show ?thesis
      by (simp add: edit_context_def add_context_def Let_def)
  next
    case (Some c)
    with \<open>cname = Some n\<close> show ?thesis by (simp add: edit_context_def)
  qed
qed

lemma edit_project_ok:
  "\<exists>u st1. edit_project st pname = (Inr u, st1) \<and> tasks st1 = tasks st
     \<and> contexts st1 = contexts st \<and> (u = None \<longleftrightarrow> pname = None)
     \<and> (pname = Some [] \<longrightarrow> u = Some None \<and> st1 = st)"
proof (cases pname)
  case None
  then show ?thesis by (simp add: edit_project_def)
next
  case (Some n)
  show ?thesis
  proof (cases "get_project_by_name st n")
    case None
    then have "n \<notin> set (map row_name (projects st))"
      by (simp add: get_project_by_name_def find_None_iff_names)
    with Some None show ?thesis
      by (simp add: edit_project_def add_project_def Let_def)
  next
    case (Some c)
    with \<open>pname = Some n\<close> show ?thesis by (simp add: edit_project_def)
  qed
qed

lemma apply_updates_id [simp]: "task_id (apply_updates descr prio due cu pu r) = task_id r"
  by (simp add: apply_updates_def)

lemma filter_others_map_update:
  "filter (\<lambda>r. task_id r \<noteq> i) (map (\<lambda>r. if task_id r = i then g r else r) rs)
   = filter (\<lambda>r. task_id r \<noteq> i) rs" if "\<And>r. task_id (g r) = task_id r"
  using that by (induction rs) simp_all

lemma edit_task_sequential:
  assumes found: "find (\<lambda>r. task_id r = i) (tasks st) = Some r"
  obtains cu pu st2 st3 where
    "tasks st2 = tasks st"
    "cu = None \<longleftrightarrow> cname = None" "pu = None \<longleftrightarrow> pname = None"
    "cname = Some [] \<Longrightarrow> cu = Some None" "pname = Some [] \<Longrightarrow> pu = Some None"
    "filter (\<lambda>r. task_id r \<noteq> i) (tasks st3) = filter (\<lambda>r. task_id r \<noteq> i) (tasks st)"
    "get_task st2 i = Some (join st2 r)"
    "get_task st3 i = Some (join st3 (apply_updates descr prio due cu pu r))"
    "edit_task st i descr prio due cname pname =
       (if descr = None \<and> prio = None \<and> due = None \<and> cname = None \<and> pname = None
        then (Inl NoUpdates, st2)
        else (Inr (Some (join st3 (apply_updates descr prio due cu pu r))), st3))"
proof -
  obtain cu st1 where c: "edit_context st cname = (Inr cu, st1)" "tasks st1 = tasks st"
      "cu = None \<longleftrightarrow> cname = None" "cname = Some [] \<longrightarrow> cu = Some None"
    using edit_context_ok [of st cname] by blast
  obtain pu st2 where p: "edit_project st1 pname = (Inr pu, st2)" "tasks st2 = tasks st1"
      "pu = None \<longleftrightarrow> pname = None" "pname = Some [] \<longrightarrow> pu = Some None"
    using edit_project_ok [of st1 pname] by blast
  define U where "U = (\<lambda>x. if task_id x = i then apply_updates descr prio due cu pu x else x)"
  define st3 where "st3 = st2\<lparr>tasks := map U (tasks st)\<rparr>"
  have t2: "tasks st2 = tasks st" using c(2) p(2) by simp
  have t3: "tasks st3 = map U (tasks st)" by (simp add: st3_def)
  have got: "get_task st i = Some (join st r)" using found by (simp add: get_task_def)
  have got2: "get_task st2 i = Some (join st2 r)" using found by (simp add: get_task_def t2)
  have "i \<in> task_id ` set (tasks st)" using found find_id_Some_iff [of i "tasks st"] by blast
  then have rows: "filter (\<lambda>r. task_id r = i) (tasks st2) \<noteq> []"
    by (simp only: t2 filter_id_empty_iff not_not)
  have "find (\<lambda>r. task_id r = i) (map U (tasks st))
          = map_option (apply_updates descr prio due cu pu) (find (\<lambda>r. task_id r = i) (tasks st))"
    unfolding U_def by (rule find_map_update) simp
  then have "find (\<lambda>r. task_id r = i) (tasks st3) = Some (apply_updates descr prio due cu pu r)"
    by (simp add: t3 found)
  then have got3: "get_task st3 i = Some (join st3 (apply_updates descr prio due cu pu r))"
    by (simp add: get_task_def)
  have others: "filter (\<lambda>r. task_id r \<noteq> i) (tasks st3) = filter (\<lambda>r. task_id r \<noteq> i) (tasks st)"
    unfolding t3 U_def by (rule filter_others_map_update) simp
  have st3': "st2\<lparr>tasks := map (\<lambda>r. if task_id r = i then apply_updates descr prio due cu pu r
                                      else r) (tasks st2)\<rparr> = st3"
    by (simp only: st3_def U_def t2)
  have len: "0 < length (filter (\<lambda>r. task_id r = i) (tasks st2))"
    using rows by simp
  have none_iff: "(descr = None \<and> prio = None \<and> due = None \<and> cu = None \<and> pu = None)
      \<longleftrightarrow> (descr = None \<and> prio = None \<and> due = None \<and> cname = None \<and> pname = None)"
    using c(3) p(3) by simp
  have "edit_task st i descr prio due cname pname =
       (if descr = None \<and> prio = None \<and> due = None \<and> cu = None \<and> pu = None
        then (Inl NoUpdates, st2) else (Inr (get_task st3 i), st3))"
    unfolding edit_task_def
    by (simp only: got c(1) p(1) option.case prod.case sum.case Let_def st3' len if_True)
  then have "edit_task st i descr prio due cname pname =
       (if descr = None \<and> prio = None \<and> due = None \<and> cname = None \<and> pname = None
        then (Inl NoUpdates, st2)
        else (Inr (Some (join st3 (apply_updates descr prio due cu pu r))), st3))"
    by (simp only: got3 none_iff)
  then show ?thesis
    using that [of st2 cu pu st3] t2 c(3,4) p(3,4) others got2 got3 by blast
qed

lemma get_task_SomeD:
  "get_task st i = Some cur \<Longrightarrow> find (\<lambda>r. task_id r = i) (tasks st) = Some (task cur)"
  by (auto simp: get_task_def join_def)

text \<open>
  Claim C9. For a stored task, \<open>edit_task\<close> with the empty string as context name and
  no other field does not return the no-updates error: it succeeds, and the row it
  returns and stores is the old row with a null \<open>context_id\<close>. The same holds for the
  project name and \<open>project_id\<close>.
\<close>

theorem edit_task_clear_counts_as_update:
  assumes "get_task st i = Some cur"
  shows "(\<exists>j st'. edit_task st i None None None (Some []) None = (Inr (Some j), st')
            \<and> get_task st' i = Some j \<and> task j = (task cur)\<lparr>context_id := None\<rparr>)
       \<and> (\<exists>j st'. edit_task st i None None None None (Some []) = (Inr (Some j), st')
            \<and> get_task st' i = Some j \<and> task j = (task cur)\<lparr>project_id := None\<rparr>)"
proof
  from assms have found: "find (\<lambda>r. task_id r = i) (tasks st) = Some (task cur)"
    by (rule get_task_SomeD)
  show "\<exists>j st'. edit_task st i None None None (Some []) None = (Inr (Some j), st')
            \<and> get_task st' i = Some j \<and> task j = (task cur)\<lparr>context_id := None\<rparr>"
  proof (rule edit_task_sequential [OF found, of "Some []" None None None None])
    fix cu pu :: "int option option" and st2 st3
    assume cu: "Some [] = Some [] \<Longrightarrow> cu = Some None" and pu: "(pu = None) = (None = None)"
      and got: "get_task st3 i = Some (join st3 (apply_updates None None None cu pu (task cur)))"
      and res: "edit_task st i None None None (Some []) None =
        (if None = None \<and> None = None \<and> None = None \<and> Some [] = None \<and> None = None
         then (Inl NoUpdates, st2)
         else (Inr (Some (join st3 (apply_updates None None None cu pu (task cur)))), st3))"
    have "task (join st3 (apply_updates None None None cu pu (task cur)))
            = (task cur)\<lparr>context_id := None\<rparr>"
      using cu pu by (simp add: join_def apply_updates_def)
    moreover have "edit_task st i None None None (Some []) None =
        (Inr (Some (join st3 (apply_updates None None None cu pu (task cur)))), st3)"
      using res by simp
    ultimately show ?thesis using got by blast
  qed
  show "\<exists>j st'. edit_task st i None None None None (Some []) = (Inr (Some j), st')
            \<and> get_task st' i = Some j \<and> task j = (task cur)\<lparr>project_id := None\<rparr>"
  proof (rule edit_task_sequential [OF found, of None "Some []" None None None])
    fix cu pu :: "int option option" and st2 st3
    assume pu: "Some [] = Some [] \<Longrightarrow> pu = Some None" and cu: "(cu = None) = (None = None)"
      and got: "get_task st3 i = Some (join st3 (apply_updates None None None cu pu (task cur)))"
      and res: "edit_task st i None None None None (Some []) =
        (if None = None \<and> None = None \<and> None = None \<and> None = None \<and> Some [] = None
         then (Inl NoUpdates, st2)
         else (Inr (Some (join st3 (apply_updates None None None cu pu (task cur)))), st3))"
    have "task (join st3 (apply_updates None None None cu pu (task cur)))
            = (task cur)\<lparr>project_id := None\<rparr>"
      using cu pu by (simp add: join_def apply_updates_def)
    moreover have "edit_task st i None None None None (Some []) =
        (Inr (Some (join st3 (apply_updates None None None cu pu (task cur)))), st3)"
      using res by simp
    ultimately show ?thesis using got by blast
  qed
qed

lemma get_linked_task: "get_task linked_store 1 = Some linked_task"
  by (simp add: get_task_def linked_store_def linked_task_def join_def joined_name_def mk_task_def)

theorem edit_task_clear_counts_as_update_witness:
  "(\<exists>j st'. edit_task linked_store 1 None None None (Some []) None = (Inr (Some j), st')
            \<and> get_task st' 1 = Some j \<and> task j = (task linked_task)\<lparr>context_id := None\<rparr>)
       \<and> (\<exists>j st'. edit_task linked_store 1 None None None None (Some []) = (Inr (Some j), st')
            \<and> get_task st' 1 = Some j \<and> task j = (task linked_task)\<lparr>project_id := None\<rparr>)"
  using edit_task_clear_counts_as_update [OF get_linked_task] .

text \<open>
  Claim C4. For a stored task: \<open>edit_task\<close> with the empty string as context name
  succeeds and the row has a null \<open>context_id\<close> afterwards; the same for the project
  name and \<open>project_id\<close>; and after any call, a column whose argument was not supplied
  holds what it held before (\<open>context_id\<close> when no context name was supplied,
  \<open>project_id\<close> when no project name was supplied), \<open>description\<close>, \<open>priority\<close> and
  \<open>due_date_time\<close> hold the supplied value or else the old one, the id, \<open>created_at\<close>
  and \<open>completed\<close> are unchanged, and so are the rows of all other tasks.
\<close>

theorem edit_task_only_supplied_fields:
  assumes "get_task st i = Some cur"
  shows "(\<exists>j st'. edit_task st i descr prio due (Some []) pname = (Inr (Some j), st')
            \<and> get_task st' i = Some j \<and> context_id (task j) = None)
       \<and> (\<exists>j st'. edit_task st i descr prio due cname (Some []) = (Inr (Some j), st')
            \<and> get_task st' i = Some j \<and> project_id (task j) = None)
       \<and> (\<exists>res st' j. edit_task st i descr prio due cname pname = (res, st')
            \<and> get_task st' i = Some j
            \<and> (cname = None \<longrightarrow> context_id (task j) = context_id (task cur))
            \<and> (pname = None \<longrightarrow> project_id (task j) = project_id (task cur))
            \<and> description (task j) = (case descr of None \<Rightarrow> description (task cur) | Some x \<Rightarrow> x)
            \<and> priority (task j) = (case prio of None \<Rightarrow> priority (task cur) | Some x \<Rightarrow> Some x)
            \<and> due_date_time (task j)
                = (case due of None \<Rightarrow> due_date_time (task cur) | Some x \<Rightarrow> Some x)
            \<and> task_id (task j) = task_id (task cur)
            \<and> created_at (task j) = created_at (task cur)
            \<and> completed (task j) = completed (task cur)
            \<and> filter (\<lambda>r. task_id r \<noteq> i) (tasks st') = filter (\<lambda>r. task_id r \<noteq> i) (tasks st))"
proof (intro conjI)
  from assms have found: "find (\<lambda>r. task_id r = i) (tasks st) = Some (task cur)"
    by (rule get_task_SomeD)
  show "\<exists>j st'. edit_task st i descr prio due (Some []) pname = (Inr (Some j), st')
            \<and> get_task st' i = Some j \<and> context_id (task j) = None"
  proof (rule edit_task_sequential [OF found, of "Some []" pname descr prio due])
    fix cu pu :: "int option option" and st2 st3
    assume cu: "Some [] = Some [] \<Longrightarrow> cu = Some None"
      and got: "get_task st3 i = Some (join st3 (apply_updates descr prio due cu pu (task cur)))"
      and res: "edit_task st i descr prio due (Some []) pname =
        (if descr = None \<and> prio = None \<and> due = None \<and> Some [] = None \<and> pname = None
         then (Inl NoUpdates, st2)
         else (Inr (Some (join st3 (apply_updates descr prio due cu pu (task cur)))), st3))"
    have "context_id (task (join st3 (apply_updates descr prio due cu pu (task cur)))) = None"
      using cu by (simp add: join_def apply_updates_def)
    moreover have "edit_task st i descr prio due (Some []) pname =
        (Inr (Some (join st3 (apply_updates descr prio due cu pu (task cur)))), st3)"
      using res by simp
    ultimately show ?thesis using got by blast
  qed
  show "\<exists>j st'. edit_task st i descr prio due cname (Some []) = (Inr (Some j), st')
            \<and> get_task st' i = Some j \<and> project_id (task j) = None"
  proof (rule edit_task_sequential [OF found, of cname "Some []" descr prio due])
    fix cu pu :: "int option option" and st2 st3
    assume pu: "Some [] = Some [] \<Longrightarrow> pu = Some None"
      and got: "get_task st3 i = Some (join st3 (apply_updates descr prio due cu pu (task cur)))"
      and res: "edit_task st i descr prio due cname (Some []) =
        (if descr = None \<and> prio = None \<and> due = None \<and> cname = None \<and> Some [] = None
         then (Inl NoUpdates, st2)
         else (Inr (Some (join st3 (apply_updates descr prio due cu pu (task cur)))), st3))"
    have "project_id (task (join st3 (apply_updates descr prio due cu pu (task cur)))) = None"
      using pu by (simp add: join_def apply_updates_def)
    moreover have "edit_task st i descr prio due cname (Some []) =
        (Inr (Some (join st3 (apply_updates descr prio due cu pu (task cur)))), st3)"
      using res by simp
    ultimately show ?thesis using got by blast
  qed
  show "\<exists>res st' j. edit_task st i descr prio due cname pname = (res, st')
            \<and> get_task st' i = Some j
            \<and> (cname = None \<longrightarrow> context_id (task j) = context_id (task cur))
            \<and> (pname = None \<longrightarrow> project_id (task j) = project_id (task cur))
            \<and> description (task j) = (case descr of None \<Rightarrow> description (task cur) | Some x \<Rightarrow> x)
            \<and> priority (task j) = (case prio of None \<Rightarrow> priority (task cur) | Some x \<Rightarrow> Some x)
            \<and> due_date_time (task j)
                = (case due of None \<Rightarrow> due_date_time (task cur) | Some x \<Rightarrow> Some x)
            \<and> task_id (task j) = task_id (task cur)
            \<and> created_at (task j) = created_at (task cur)
            \<and> completed (task j) = completed (task cur)
            \<and> filter (\<lambda>r. task_id r \<noteq> i) (tasks st') = filter (\<lambda>r. task_id r \<noteq> i) (tasks st)"
  proof (rule edit_task_sequential [OF found, of cname pname descr prio due])
    fix cu pu :: "int option option" and st2 st3
    assume t2: "tasks st2 = tasks st"
      and cu: "(cu = None) = (cname = None)" and pu: "(pu = None) = (pname = None)"
      and others: "filter (\<lambda>r. task_id r \<noteq> i) (tasks st3) = filter (\<lambda>r. task_id r \<noteq> i) (tasks st)"
      and got2: "get_task st2 i = Some (join st2 (task cur))"
      and got3: "get_task st3 i = Some (join st3 (apply_updates descr prio due cu pu (task cur)))"
      and res: "edit_task st i descr prio due cname pname =
        (if descr = None \<and> prio = None \<and> due = None \<and> cname = None \<and> pname = None
         then (Inl NoUpdates, st2)
         else (Inr (Some (join st3 (apply_updates descr prio due cu pu (task cur)))), st3))"
    show ?thesis
    proof (cases "descr = None \<and> prio = None \<and> due = None \<and> cname = None \<and> pname = None")
      case True
      with res have "edit_task st i descr prio due cname pname = (Inl NoUpdates, st2)" by simp
      moreover have "task (join st2 (task cur)) = task cur" by (simp add: join_def)
      ultimately show ?thesis using got2 t2 True
        by (intro exI [of _ "Inl NoUpdates"] exI [of _ st2] exI [of _ "join st2 (task cur)"]) simp
    next
      case False
      with res have r: "edit_task st i descr prio due cname pname =
        (Inr (Some (join st3 (apply_updates descr prio due cu pu (task cur)))), st3)" by simp
      define r' where "r' = apply_updates descr prio due cu pu (task cur)"
      have j: "task (join st3 r') = r'" by (simp add: join_def)
      have f1: "description r' = (case descr of None \<Rightarrow> description (task cur) | Some x \<Rightarrow> x)"
        and f2: "priority r' = (case prio of None \<Rightarrow> priority (task cur) | Some x \<Rightarrow> Some x)"
        and f3: "due_date_time r'
                  = (case due of None \<Rightarrow> due_date_time (task cur) | Some x \<Rightarrow> Some x)"
        and f4: "task_id r' = task_id (task cur)" "created_at r' = created_at (task cur)"
          "completed r' = completed (task cur)"
        by (simp_all add: r'_def apply_updates_def)
      have f5: "cname = None \<longrightarrow> context_id r' = context_id (task cur)"
        using cu by (auto simp: r'_def apply_updates_def)
      have f6: "pname = None \<longrightarrow> project_id r' = project_id (task cur)"
        using pu by (auto simp: r'_def apply_updates_def)
      from r got3 have "edit_task st i descr prio due cname pname = (Inr (Some (join st3 r')), st3)"
        and "get_task st3 i = Some (join st3 r')"
        by (simp_all only: r'_def)
      then show ?thesis using others f1 f2 f3 f4 f5 f6
        by (intro exI [of _ "Inr (Some (join st3 r'))"] exI [of _ st3] exI [of _ "join st3 r'"])
           (simp only: j simp_thms)
    qed
  qed
qed

theorem edit_task_only_supplied_fields_witness:
  "(\<exists>j st'. edit_task linked_store 1 None (Some ''high'') None (Some []) None = (Inr (Some j), st')
            \<and> get_task st' 1 = Some j \<and> context_id (task j) = None)
       \<and> (\<exists>j st'. edit_task linked_store 1 None (Some ''high'') None None (Some [])
              = (Inr (Some j), st')
            \<and> get_task st' 1 = Some j \<and> project_id (task j) = None)
       \<and> (\<exists>res st' j. edit_task linked_store 1 None (Some ''high'') None None None = (res, st')
            \<and> get_task st' 1 = Some j
            \<and> context_id (task j) = Some 1 \<and> project_id (task j) = Some 1
            \<and> description (task j) = ''task''
            \<and> priority (task j) = Some ''high''
            \<and> due_date_time (task j) = Some ''2024-02-01 23:59:59''
            \<and> task_id (task j) = 1
            \<and> created_at (task j) = ''2024-01-01 09:00:00''
            \<and> completed (task j) = False
            \<and> filter (\<lambda>r. task_id r \<noteq> 1) (tasks st') = [])"
proof (intro conjI)
  note t = edit_task_only_supplied_fields [OF get_linked_task, of None "Some ''high''" None]
  show "\<exists>j st'. edit_task linked_store 1 None (Some ''high'') None (Some []) None = (Inr (Some j), st')
            \<and> get_task st' 1 = Some j \<and> context_id (task j) = None"
    using t [of None None] by blast
  show "\<exists>j st'. edit_task linked_store 1 None (Some ''high'') None None (Some [])
              = (Inr (Some j), st')
            \<and> get_task st' 1 = Some j \<and> project_id (task j) = None"
    using t [of None None] by blast
  have "\<exists>res st' j. edit_task linked_store 1 None (Some ''high'') None None None = (res, st')
            \<and> get_task st' 1 = Some j
            \<and> context_id (task j) = context_id (task linked_task)
            \<and> project_id (task j) = project_id (task linked_task)
            \<and> description (task j) = description (task linked_task)
            \<and> priority (task j) = Some ''high''
            \<and> due_date_time (task j) = due_date_time (task linked_task)
            \<and> task_id (task j) = task_id (task linked_task)
            \<and> created_at (task j) = created_at (task linked_task)
            \<and> completed (task j) = completed (task linked_task)
            \<and> filter (\<lambda>r. task_id r \<noteq> 1) (tasks st') = filter (\<lambda>r. task_id r \<noteq> 1) (tasks linked_store)"
    using t [of None None] by simp
  then show "\<exists>res st' j. edit_task linked_store 1 None (Some ''high'') None None None = (res, st')
            \<and> get_task st' 1 = Some j
            \<and> context_id (task j) = Some 1 \<and> project_id (task j) = Some 1
            \<and> description (task j) = ''task''
            \<and> priority (task j) = Some ''high''
            \<and> due_date_time (task j) = Some ''2024-02-01 23:59:59''
            \<and> task_id (task j) = 1
            \<and> created_at (task j) = ''2024-01-01 09:00:00''
            \<and> completed (task j) = False
            \<and> filter (\<lambda>r. task_id r \<noteq> 1) (tasks st') = []"
    by (simp add: linked_task_def linked_store_def mk_task_def)
qed

subsection \<open>Timestamps as text\<close>

lemma of_char_digit: "d < 10 \<Longrightarrow> (of_char (digit_char d) :: nat) = 48 + d"
  by (simp add: digit_char_def)

lemma digit_char_less: "a < 10 \<Longrightarrow> b < 10 \<Longrightarrow> digit_char a < digit_char b \<longleftrightarrow> a < b"
  by (simp add: less_char_def of_char_digit)

lemma digit_char_eq:
  assumes "a < 10" "b < 10"
  shows "digit_char a = digit_char b \<longleftrightarrow> a = b"
proof
  assume "digit_char a = digit_char b"
  then have "(of_char (digit_char a) :: nat) = of_char (digit_char b)" by (rule arg_cong)
  then show "a = b" using assms by (simp only: of_char_digit add_left_cancel)
next
  assume "a = b"
  then show "digit_char a = digit_char b" by (rule arg_cong)
qed

lemma digit_char_0: "digit_char 0 = CHR ''0''"
  by code_simp

lemma show_nat_1: "n < 10 \<Longrightarrow> show_nat n = [digit_char n]"
  by (simp add: show_nat.simps)

lemma show_nat_step: "10 \<le> n \<Longrightarrow> show_nat n = show_nat (n div 10) @ [digit_char (n mod 10)]"
  by (subst show_nat.simps) simp

lemma zfill_short:
  "zfill 2 [a] = [CHR ''0'', a]" "zfill 2 [a, b] = [a, b]"
  "zfill 4 [a] = [CHR ''0'', CHR ''0'', CHR ''0'', a]"
  "zfill 4 [a, b] = [CHR ''0'', CHR ''0'', a, b]"
  "zfill 4 [a, b, c] = [CHR ''0'', a, b, c]"
  "zfill 4 [a, b, c, d] = [a, b, c, d]"
  by (simp_all add: zfill_def numeral_2_eq_2 numeral_3_eq_3)

lemma zfill2: "n < 100 \<Longrightarrow> zfill 2 (show_nat n) = [digit_char (n div 10), digit_char (n mod 10)]"
proof (cases "n < 10")
  case True
  then show ?thesis by (simp add: show_nat_1 zfill_short digit_char_0)
next
  case False
  assume "n < 100"
  with False have "n div 10 < 10" "10 \<le> n" by simp_all
  then show ?thesis by (simp add: show_nat_step show_nat_1 zfill_short)
qed

lemma zfill4:
  assumes "n < 10000"
  shows "zfill 4 (show_nat n) = [digit_char (n div 1000), digit_char (n div 100 mod 10),
                                 digit_char (n div 10 mod 10), digit_char (n mod 10)]"
proof -
  consider "n < 10" | "10 \<le> n" "n < 100" | "100 \<le> n" "n < 1000" | "1000 \<le> n" by linarith
  then show ?thesis
  proof cases
    case 1
    then show ?thesis by (simp add: show_nat_1 zfill_short digit_char_0)
  next
    case 2
    then have "n div 10 < 10" by simp
    with 2 show ?thesis
      by (simp add: show_nat_step show_nat_1 zfill_short digit_char_0)
  next
    case 3
    then have a: "10 \<le> n div 10" "n div 10 div 10 < 10" "10 \<le> n" by simp_all
    have "n div 10 div 10 = n div 100" by (simp add: div_mult2_eq [symmetric])
    with a 3 show ?thesis
      by (simp add: show_nat_step show_nat_1 zfill_short digit_char_0)
  next
    case 4
    with assms have a: "10 \<le> n" "10 \<le> n div 10" "10 \<le> n div 10 div 10" "n div 10 div 10 div 10 < 10"
      by simp_all
    have b: "n div 10 div 10 = n div 100" "n div 10 div 10 div 10 = n div 1000"
      by (simp_all add: div_mult2_eq [symmetric])
    have c: "n div 1000 mod 10 = n div 1000" using a(4) b by simp
    from a b show ?thesis
      by (simp add: show_nat_step [of n] show_nat_step [of "n div 10"] show_nat_step [of "n div 100"]
            show_nat_1 zfill_short)
  qed
qed

lemma lex_append_same_length:
  "length a = length b \<Longrightarrow> (a @ x < b @ y) \<longleftrightarrow> (a < b \<or> a = b \<and> x < y)"
  for a b x y :: string
  by (induction a b rule: list_induct2) auto

lemma lex2_nat:
  "((a::nat) div 10 < b div 10 \<or> a div 10 = b div 10 \<and> a mod 10 < b mod 10) \<longleftrightarrow> a < b"
proof -
  have "a = 10 * (a div 10) + a mod 10" "b = 10 * (b div 10) + b mod 10" by simp_all
  moreover have "a mod 10 < 10" "b mod 10 < 10" by simp_all
  ultimately show ?thesis by linarith
qed

lemma lex2_eq_nat: "((a::nat) div 10 = b div 10 \<and> a mod 10 = b mod 10) \<longleftrightarrow> a = b"
proof -
  have "a = 10 * (a div 10) + a mod 10" "b = 10 * (b div 10) + b mod 10" by simp_all
  then show ?thesis by metis
qed

lemma two_chars_less: "[a1, a0] < [b1, b0] \<longleftrightarrow> a1 < b1 \<or> a1 = b1 \<and> a0 < b0" for a1 :: char
  by simp

lemma pad2_less:
  assumes "a < 100" "b < 100"
  shows "zfill 2 (show_nat a) < zfill 2 (show_nat b) \<longleftrightarrow> a < b"
proof -
  have d: "a div 10 < 10" "a mod 10 < 10" "b div 10 < 10" "b mod 10 < 10" using assms by simp_all
  have "zfill 2 (show_nat a) < zfill 2 (show_nat b) \<longleftrightarrow>
        (digit_char (a div 10) < digit_char (b div 10)
         \<or> digit_char (a div 10) = digit_char (b div 10)
           \<and> digit_char (a mod 10) < digit_char (b mod 10))"
    by (simp only: zfill2 [OF assms(1)] zfill2 [OF assms(2)] two_chars_less)
  also have "\<dots> \<longleftrightarrow> (a div 10 < b div 10 \<or> a div 10 = b div 10 \<and> a mod 10 < b mod 10)"
    by (simp only: digit_char_less [OF d(1) d(3)] digit_char_less [OF d(2) d(4)]
          digit_char_eq [OF d(1) d(3)])
  also have "\<dots> \<longleftrightarrow> a < b" by (rule lex2_nat)
  finally show ?thesis .
qed

lemma pad2_eq:
  assumes "a < 100" "b < 100"
  shows "zfill 2 (show_nat a) = zfill 2 (show_nat b) \<longleftrightarrow> a = b"
proof -
  have d: "a div 10 < 10" "a mod 10 < 10" "b div 10 < 10" "b mod 10 < 10" using assms by simp_all
  have "zfill 2 (show_nat a) = zfill 2 (show_nat b) \<longleftrightarrow>
        (digit_char (a div 10) = digit_char (b div 10)
           \<and> digit_char (a mod 10) = digit_char (b mod 10))"
    by (simp only: zfill2 [OF assms(1)] zfill2 [OF assms(2)] list.inject simp_thms)
  also have "\<dots> \<longleftrightarrow> (a div 10 = b div 10 \<and> a mod 10 = b mod 10)"
    by (simp only: digit_char_eq [OF d(1) d(3)] digit_char_eq [OF d(2) d(4)])
  also have "\<dots> \<longleftrightarrow> a = b" by (rule lex2_eq_nat)
  finally show ?thesis .
qed

lemma length_pad2: "n < 100 \<Longrightarrow> length (zfill 2 (show_nat n)) = 2"
  by (simp add: zfill2)

lemma lex100_nat:
  "((a::nat) div 100 < b div 100 \<or> a div 100 = b div 100 \<and> a mod 100 < b mod 100) \<longleftrightarrow> a < b"
proof -
  have "a = 100 * (a div 100) + a mod 100" "b = 100 * (b div 100) + b mod 100" by simp_all
  moreover have "a mod 100 < 100" "b mod 100 < 100" by simp_all
  ultimately show ?thesis by linarith
qed

lemma lex100_eq_nat: "((a::nat) div 100 = b div 100 \<and> a mod 100 = b mod 100) \<longleftrightarrow> a = b"
proof -
  have "a = 100 * (a div 100) + a mod 100" "b = 100 * (b div 100) + b mod 100" by simp_all
  then show ?thesis by metis
qed

lemma zfill4_split:
  assumes "n < 10000"
  shows "zfill 4 (show_nat n) = zfill 2 (show_nat (n div 100)) @ zfill 2 (show_nat (n mod 100))"
proof -
  have hi: "n div 100 < 100" using assms by simp
  have lo: "n mod 100 < 100" by simp
  have a: "n div 100 div 10 = n div 1000" by (simp add: div_mult2_eq [symmetric])
  have "n mod (10 * 10) = 10 * (n div 10 mod 10) + n mod 10" by (rule mod_mult2_eq)
  then have b: "n mod 100 div 10 = n div 10 mod 10" by simp
  have c: "n mod 100 mod 10 = n mod 10" by (simp add: mod_mod_cancel)
  show ?thesis
    by (simp only: zfill4 [OF assms] zfill2 [OF hi] zfill2 [OF lo] a b c append.simps)
qed

lemma pad4_less:
  assumes "a < 10000" "b < 10000"
  shows "zfill 4 (show_nat a) < zfill 4 (show_nat b) \<longleftrightarrow> a < b"
proof -
  have r: "a div 100 < 100" "a mod 100 < 100" "b div 100 < 100" "b mod 100 < 100"
    using assms by simp_all
  have len: "length (zfill 2 (show_nat (a div 100))) = length (zfill 2 (show_nat (b div 100)))"
    by (simp only: length_pad2 r)
  have "zfill 4 (show_nat a) < zfill 4 (show_nat b) \<longleftrightarrow>
        (a div 100 < b div 100 \<or> a div 100 = b div 100 \<and> a mod 100 < b mod 100)"
    by (simp only: zfill4_split [OF assms(1)] zfill4_split [OF assms(2)]
          lex_append_same_length [OF len] pad2_less [OF r(1) r(3)] pad2_less [OF r(2) r(4)]
          pad2_eq [OF r(1) r(3)])
  then show ?thesis by (simp only: lex100_nat)
qed

lemma pad4_eq:
  assumes "a < 10000" "b < 10000"
  shows "zfill 4 (show_nat a) = zfill 4 (show_nat b) \<longleftrightarrow> a = b"
proof -
  have r: "a div 100 < 100" "a mod 100 < 100" "b div 100 < 100" "b mod 100 < 100"
    using assms by simp_all
  have len: "length (zfill 2 (show_nat (a div 100))) = length (zfill 2 (show_nat (b div 100)))"
    by (simp only: length_pad2 r)
  have "zfill 4 (show_nat a) = zfill 4 (show_nat b) \<longleftrightarrow>
        (a div 100 = b div 100 \<and> a mod 100 = b mod 100)"
    by (simp only: zfill4_split [OF assms(1)] zfill4_split [OF assms(2)]
          append_eq_append_conv [OF disjI1 [OF len]] pad2_eq [OF r(1) r(3)] pad2_eq [OF r(2) r(4)])
  then show ?thesis by (simp only: lex100_eq_nat)
qed

lemma length_pad4: "n < 10000 \<Longrightarrow> length (zfill 4 (show_nat n)) = 4"
  by (simp add: zfill4)

lemma lex_field:
  "length p = length q \<Longrightarrow> (p @ sep @ x < q @ sep @ y) \<longleftrightarrow> (p < q \<or> p = q \<and> x < y)"
  for p q sep x y :: string
proof -
  assume len: "length p = length q"
  have "(sep @ x < sep @ y) \<longleftrightarrow> x < y"
    using lex_append_same_length [of sep sep x y] by simp
  with lex_append_same_length [OF len, of "sep @ x" "sep @ y"] show ?thesis by simp
qed

lemma strftime_less:
  assumes "fields_in_range a" "fields_in_range b"
  shows "strftime a < strftime b \<longleftrightarrow> earlier a b"
proof -
  have y: "year a < 10000" "year b < 10000"
    and m: "month a < 100" "month b < 100"
    and d: "day a < 100" "day b < 100"
    and h: "hour a < 100" "hour b < 100"
    and mi: "minute a < 100" "minute b < 100"
    and s: "second a < 100" "second b < 100"
    using assms by (simp_all add: fields_in_range_def)
  have ly: "length (zfill 4 (show_nat (year a))) = length (zfill 4 (show_nat (year b)))"
    by (simp only: length_pad4 y)
  have lm: "length (zfill 2 (show_nat (month a))) = length (zfill 2 (show_nat (month b)))"
    by (simp only: length_pad2 m)
  have ld: "length (zfill 2 (show_nat (day a))) = length (zfill 2 (show_nat (day b)))"
    by (simp only: length_pad2 d)
  have lh: "length (zfill 2 (show_nat (hour a))) = length (zfill 2 (show_nat (hour b)))"
    by (simp only: length_pad2 h)
  have lmi: "length (zfill 2 (show_nat (minute a))) = length (zfill 2 (show_nat (minute b)))"
    by (simp only: length_pad2 mi)
  show ?thesis
    unfolding strftime_def earlier_def
    by (simp only: lex_field [OF ly] lex_field [OF lm] lex_field [OF ld] lex_field [OF lh]
          lex_field [OF lmi]
          pad4_less [OF y] pad4_eq [OF y] pad2_less [OF m] pad2_eq [OF m]
          pad2_less [OF d] pad2_eq [OF d] pad2_less [OF h] pad2_eq [OF h]
          pad2_less [OF mi] pad2_eq [OF mi] pad2_less [OF s])
qed

lemma strftime_noon: "strftime noon = ''2024-03-10 12:00:00''"
  by code_simp

subsection \<open>Filters\<close>

lemma filter_insert_row:
  assumes trans: "\<And>a b c. le a b \<Longrightarrow> le b c \<Longrightarrow> le a c"
  shows "sorted_wrt le xs \<Longrightarrow>
         filter P (insert_row le x xs) = (if P x then insert_row le x (filter P xs) else filter P xs)"
proof (induction xs)
  case Nil
  then show ?case by simp
next
  case (Cons y ys)
  show ?case
  proof (cases "le x y")
    case True
    then have all: "\<forall>z\<in>set ys. le x z" using Cons.prems trans by auto
    have "insert_row le x (filter P ys) = x # filter P ys"
      using all by (cases "filter P ys") (auto simp: filter_eq_Cons_iff)
    with True show ?thesis by simp
  next
    case False
    with Cons show ?thesis by simp
  qed
qed

lemma filter_order_by:
  assumes "\<And>a b. le a b \<or> le b a" and "\<And>a b c. le a b \<Longrightarrow> le b c \<Longrightarrow> le a c"
  shows "filter P (order_by le xs) = order_by le (filter P xs)"
proof (induction xs)
  case Nil
  then show ?case by (simp add: order_by_def)
next
  case (Cons x xs)
  have step: "order_by le (x # xs) = insert_row le x (order_by le xs)" for x xs
    by (simp add: order_by_def)
  have "sorted_wrt le (order_by le xs)" using assms by (rule sorted_order_by)
  then show ?case
    using Cons filter_insert_row [of le "order_by le xs" P x, OF assms(2)]
    by (simp add: step)
qed

lemma set_order_by: "set (order_by le xs) = set xs"
  by (induction xs) (simp_all add: order_by_def set_insert_row)

lemma where_clause_overdue:
  "overdue f \<Longrightarrow> where_clause now f j \<longleftrightarrow>
     where_clause now (f\<lparr>overdue := False\<rparr>) j
     \<and> sql_lt (due_date_time (task j)) now \<and> \<not> completed (task j)"
  by (auto simp: where_clause_def)

text \<open>
  Claim C7. With \<open>overdue\<close> set, the listing is the listing for the same filter
  without \<open>overdue\<close>, restricted to the rows that are not completed and whose
  \<open>due_date_time\<close> is not null and smaller than the current time (so the restriction is
  added to the other filters by conjunction). Every row returned is not completed and
  has a due timestamp before the formatted current time; when this timestamp is the
  canonical text of a point in time, that point is earlier than the current time.
\<close>

theorem list_tasks_overdue_only:
  assumes "overdue f"
  shows "list_tasks st now f
           = filter (\<lambda>j. sql_lt (due_date_time (task j)) (strftime now) \<and> \<not> completed (task j))
               (list_tasks st now (f\<lparr>overdue := False\<rparr>))
         \<and> (\<forall>j\<in>set (list_tasks st now f). \<not> completed (task j)
               \<and> (\<exists>d. due_date_time (task j) = Some d \<and> d < strftime now
                     \<and> (\<forall>dt. fields_in_range dt \<and> fields_in_range now \<and> d = strftime dt
                           \<longrightarrow> earlier dt now)))"
proof
  let ?P = "\<lambda>j. sql_lt (due_date_time (task j)) (strftime now) \<and> \<not> completed (task j)"
  let ?rows = "map (join st) (tasks st)"
  have "filter (where_clause (strftime now) f) ?rows
          = filter ?P (filter (where_clause (strftime now) (f\<lparr>overdue := False\<rparr>)) ?rows)"
  proof -
    have "where_clause (strftime now) f
            = (\<lambda>j. where_clause (strftime now) (f\<lparr>overdue := False\<rparr>) j \<and> ?P j)"
      by (rule ext) (rule where_clause_overdue [OF assms])
    then show ?thesis by (simp only: filter_filter)
  qed
  moreover have "filter ?P (order_by task_order xs) = order_by task_order (filter ?P xs)" for xs
  proof (rule filter_order_by)
    show "task_order a b \<or> task_order b a" for a b by (rule task_order_total)
    show "task_order a b \<Longrightarrow> task_order b c \<Longrightarrow> task_order a c" for a b c
      by (rule task_order_trans)
  qed
  ultimately show eq: "list_tasks st now f = filter ?P (list_tasks st now (f\<lparr>overdue := False\<rparr>))"
    by (simp only: list_tasks_def)
  show "\<forall>j\<in>set (list_tasks st now f). \<not> completed (task j)
               \<and> (\<exists>d. due_date_time (task j) = Some d \<and> d < strftime now
                     \<and> (\<forall>dt. fields_in_range dt \<and> fields_in_range now \<and> d = strftime dt
                           \<longrightarrow> earlier dt now))"
  proof
    fix j
    assume "j \<in> set (list_tasks st now f)"
    then have "j \<in> set (filter ?P (list_tasks st now (f\<lparr>overdue := False\<rparr>)))"
      by (simp only: eq)
    then have "?P j" by simp
    then obtain d where d: "due_date_time (task j) = Some d" "d < strftime now"
      and c: "\<not> completed (task j)"
      by (auto simp: sql_lt_def split: option.splits)
    have "earlier dt now" if "fields_in_range dt \<and> fields_in_range now \<and> d = strftime dt" for dt
      using that d(2) strftime_less [of dt now] by simp
    with d c show "\<not> completed (task j)
               \<and> (\<exists>d. due_date_time (task j) = Some d \<and> d < strftime now
                     \<and> (\<forall>dt. fields_in_range dt \<and> fields_in_range now \<and> d = strftime dt
                           \<longrightarrow> earlier dt now))"
      by blast
  qed
qed

theorem list_tasks_overdue_only_witness:
  "list_tasks three_tasks noon (default_filter\<lparr>overdue := True\<rparr>)
           = filter (\<lambda>j. sql_lt (due_date_time (task j)) (strftime noon) \<and> \<not> completed (task j))
               (list_tasks three_tasks noon (default_filter\<lparr>overdue := True, overdue := False\<rparr>))
   \<and> overdue (default_filter\<lparr>overdue := True\<rparr>)
   \<and> map (task_id \<circ> task) (list_tasks three_tasks noon (default_filter\<lparr>overdue := True\<rparr>)) = [1, 2]
   \<and> fields_in_range noon
   \<and> fields_in_range \<lparr>year = 2024, month = 2, day = 1, hour = 23, minute = 59, second = 59\<rparr>
   \<and> strftime \<lparr>year = 2024, month = 2, day = 1, hour = 23, minute = 59, second = 59\<rparr>
       = ''2024-02-01 23:59:59''
   \<and> earlier \<lparr>year = 2024, month = 2, day = 1, hour = 23, minute = 59, second = 59\<rparr> noon"
proof (intro conjI)
  have o: "overdue (default_filter\<lparr>overdue := True\<rparr>)" by simp
  then show "overdue (default_filter\<lparr>overdue := True\<rparr>)" .
  show "list_tasks three_tasks noon (default_filter\<lparr>overdue := True\<rparr>)
           = filter (\<lambda>j. sql_lt (due_date_time (task j)) (strftime noon) \<and> \<not> completed (task j))
               (list_tasks three_tasks noon (default_filter\<lparr>overdue := True, overdue := False\<rparr>))"
    using list_tasks_overdue_only [OF o, of three_tasks noon] by blast
  show "map (task_id \<circ> task) (list_tasks three_tasks noon (default_filter\<lparr>overdue := True\<rparr>)) = [1, 2]"
    by code_simp
  show "fields_in_range noon" by (simp add: fields_in_range_def noon_def)
  show "fields_in_range \<lparr>year = 2024, month = 2, day = 1, hour = 23, minute = 59, second = 59\<rparr>"
    by (simp add: fields_in_range_def)
  show "strftime \<lparr>year = 2024, month = 2, day = 1, hour = 23, minute = 59, second = 59\<rparr>
       = ''2024-02-01 23:59:59''"
    by code_simp
  show "earlier \<lparr>year = 2024, month = 2, day = 1, hour = 23, minute = 59, second = 59\<rparr> noon"
    by (simp add: earlier_def noon_def)
qed

subsection \<open>Display of due dates\<close>

lemma strptime_empty: "strptime [] = None"
  by (simp add: strptime_def number_field_def)

lemma format_relative_date_parsed:
  assumes "strptime s = Some dt" and "k = int (toordinal dt) - int (toordinal now)"
  shows "format_relative_date now (Some s) =
           (if k = 0 then ''Today at '' @ lstrip0 (clock12 dt)
            else if k = 1 then ''Tomorrow at '' @ lstrip0 (clock12 dt)
            else if k = - 1 then ''Yesterday at '' @ lstrip0 (clock12 dt)
            else if 1 < k \<and> k < 7 then day_name dt @ '' at '' @ lstrip0 (clock12 dt)
            else if - 7 < k \<and> k < 0 then show_nat (nat \<bar>k\<bar>) @ '' days ago''
            else absolute_date dt)"
proof -
  have "s \<noteq> []" using assms(1) strptime_empty by auto
  then show ?thesis
    unfolding format_relative_date_def assms(2)
    by (simp only: option.case assms(1) if_False Let_def)
qed

lemmas calendar_defs = toordinal_def days_before_year_def days_before_month_def days_in_month_def
  is_leap_def weekday_def

text \<open>
  Claim C8, as the code has it. A well-formed timestamp whose date is exactly seven days
  before the current date is not rendered as \<^verbatim>\<open>7 days ago\<close>: the test is
  \<^verbatim>\<open>-7 < days_diff < 0\<close>, and the absolute form is used.
\<close>

theorem format_relative_date_week_ago_counterexample:
  "strptime ''2024-03-03 10:00:00''
     = Some \<lparr>year = 2024, month = 3, day = 3, hour = 10, minute = 0, second = 0\<rparr>
   \<and> int (toordinal noon)
       - int (toordinal \<lparr>year = 2024, month = 3, day = 3, hour = 10, minute = 0, second = 0\<rparr>) = 7
   \<and> format_relative_date noon (Some ''2024-03-03 10:00:00'') = ''Mar 3, 2024 at 10:00 AM''
   \<and> format_relative_date noon (Some ''2024-03-03 10:00:00'') \<noteq> ''7 days ago''"
proof -
  let ?dt = "\<lparr>year = 2024, month = 3, day = 3, hour = 10, minute = 0, second = 0\<rparr>"
  have p: "strptime ''2024-03-03 10:00:00'' = Some ?dt" by code_simp
  have k: "int (toordinal noon) - int (toordinal ?dt) = 7"
    by (simp add: calendar_defs noon_def)
  have k': "- 7 = int (toordinal ?dt) - int (toordinal noon)" using k by simp
  have a: "absolute_date ?dt = ''Mar 3, 2024 at 10:00 AM''" by code_simp
  have "format_relative_date noon (Some ''2024-03-03 10:00:00'') = absolute_date ?dt"
    using format_relative_date_parsed [OF p k'] by simp
  with a have f: "format_relative_date noon (Some ''2024-03-03 10:00:00'') = ''Mar 3, 2024 at 10:00 AM''"
    by simp
  then have "format_relative_date noon (Some ''2024-03-03 10:00:00'') \<noteq> ''7 days ago''"
    by simp
  with p k f show ?thesis by blast
qed

text \<open>
  Claim C8, amended. An absent due date (\<^verbatim>\<open>None\<close> or the empty string) is rendered
  as \<^verbatim>\<open>No due date\<close>, a non-empty value that \<^verbatim>\<open>strptime\<close> rejects as
  \<^verbatim>\<open>Invalid date\<close>. A well-formed timestamp whose date is N days before the current
  date, N from 2 to 6, is rendered as \<^verbatim>\<open>N days ago\<close>; one whose date is 2 to 6 days
  after it as the name of its weekday, \<^verbatim>\<open>at\<close> and its time; one whose date is
  exactly 7 days before it in the absolute form.
\<close>

theorem format_relative_date_cases:
  "format_relative_date now None = ''No due date''
   \<and> format_relative_date now (Some []) = ''No due date''
   \<and> (s \<noteq> [] \<and> strptime s = None \<longrightarrow> format_relative_date now (Some s) = ''Invalid date'')
   \<and> (strptime s = Some dt \<and> 2 \<le> int (toordinal now) - int (toordinal dt)
        \<and> int (toordinal now) - int (toordinal dt) \<le> 6 \<longrightarrow>
      format_relative_date now (Some s)
        = show_nat (nat (int (toordinal now) - int (toordinal dt))) @ '' days ago'')
   \<and> (strptime s = Some dt \<and> 2 \<le> int (toordinal dt) - int (toordinal now)
        \<and> int (toordinal dt) - int (toordinal now) \<le> 6 \<longrightarrow>
      format_relative_date now (Some s) = day_name dt @ '' at '' @ lstrip0 (clock12 dt))
   \<and> (strptime s = Some dt \<and> int (toordinal now) - int (toordinal dt) = 7 \<longrightarrow>
      format_relative_date now (Some s) = absolute_date dt)"
proof (intro conjI impI)
  show "format_relative_date now None = ''No due date''"
    by (simp add: format_relative_date_def)
  show "format_relative_date now (Some []) = ''No due date''"
    by (simp add: format_relative_date_def)
  show "format_relative_date now (Some s) = ''Invalid date''" if "s \<noteq> [] \<and> strptime s = None"
    using that by (simp add: format_relative_date_def)
next
  define k where "k = int (toordinal dt) - int (toordinal now)"
  assume a: "strptime s = Some dt \<and> 2 \<le> int (toordinal now) - int (toordinal dt)
        \<and> int (toordinal now) - int (toordinal dt) \<le> 6"
  then have k: "- 7 < k" "k < 0" "k \<noteq> - 1" "\<bar>k\<bar> = int (toordinal now) - int (toordinal dt)"
    by (simp_all add: k_def)
  from a have "strptime s = Some dt" by simp
  from format_relative_date_parsed [OF this k_def] k
  show "format_relative_date now (Some s)
        = show_nat (nat (int (toordinal now) - int (toordinal dt))) @ '' days ago''"
    by simp
next
  define k where "k = int (toordinal dt) - int (toordinal now)"
  assume a: "strptime s = Some dt \<and> 2 \<le> int (toordinal dt) - int (toordinal now)
        \<and> int (toordinal dt) - int (toordinal now) \<le> 6"
  then have k: "1 < k" "k < 7" by (simp_all add: k_def)
  from a have "strptime s = Some dt" by simp
  from format_relative_date_parsed [OF this k_def] k
  show "format_relative_date now (Some s) = day_name dt @ '' at '' @ lstrip0 (clock12 dt)"
    by simp
next
  define k where "k = int (toordinal dt) - int (toordinal now)"
  assume a: "strptime s = Some dt \<and> int (toordinal now) - int (toordinal dt) = 7"
  then have k: "k = - 7" by (simp add: k_def)
  from a have "strptime s = Some dt" by simp
  from format_relative_date_parsed [OF this k_def] k
  show "format_relative_date now (Some s) = absolute_date dt"
    by simp
qed

theorem format_relative_date_cases_witness:
  "format_relative_date noon (Some ''2024-03-04 10:00:00'') = ''6 days ago''
   \<and> format_relative_date noon (Some ''2024-03-12 13:05:00'') = ''Tuesday at 1:05 PM''
   \<and> format_relative_date noon (Some ''2024-03-03 10:00:00'') = ''Mar 3, 2024 at 10:00 AM''
   \<and> format_relative_date noon (Some ''next week'') = ''Invalid date''"
proof (intro conjI)
  let ?a = "\<lparr>year = 2024, month = 3, day = 4, hour = 10, minute = 0, second = 0\<rparr>"
  let ?b = "\<lparr>year = 2024, month = 3, day = 12, hour = 13, minute = 5, second = 0\<rparr>"
  let ?c = "\<lparr>year = 2024, month = 3, day = 3, hour = 10, minute = 0, second = 0\<rparr>"
  have pa: "strptime ''2024-03-04 10:00:00'' = Some ?a" by code_simp
  have ka: "int (toordinal noon) - int (toordinal ?a) = 6" by (simp add: calendar_defs noon_def)
  have sa: "show_nat 6 = ''6''" by code_simp
  show "format_relative_date noon (Some ''2024-03-04 10:00:00'') = ''6 days ago''"
    using format_relative_date_cases [of noon "''2024-03-04 10:00:00''" ?a] pa ka sa by simp
  have pb: "strptime ''2024-03-12 13:05:00'' = Some ?b" by code_simp
  have kb: "int (toordinal ?b) - int (toordinal noon) = 2" by (simp add: calendar_defs noon_def)
  have nb: "day_name ?b = ''Tuesday''" by (simp add: day_name_def calendar_defs)
  have cb: "lstrip0 (clock12 ?b) = ''1:05 PM''" by code_simp
  show "format_relative_date noon (Some ''2024-03-12 13:05:00'') = ''Tuesday at 1:05 PM''"
    using format_relative_date_cases [of noon "''2024-03-12 13:05:00''" ?b] pb kb nb cb by simp
  have pc: "strptime ''2024-03-03 10:00:00'' = Some ?c" by code_simp
  have kc: "int (toordinal noon) - int (toordinal ?c) = 7" by (simp add: calendar_defs noon_def)
  have ac: "absolute_date ?c = ''Mar 3, 2024 at 10:00 AM''" by code_simp
  show "format_relative_date noon (Some ''2024-03-03 10:00:00'') = ''Mar 3, 2024 at 10:00 AM''"
    using format_relative_date_cases [of noon "''2024-03-03 10:00:00''" ?c] pc kc ac by simp
  have pd: "strptime ''next week'' = None" by code_simp
  show "format_relative_date noon (Some ''next week'') = ''Invalid date''"
    using format_relative_date_cases [of noon "''next week''"] pd by simp
qed

subsection \<open>Resolving dates\<close>

lemma extract_date_time_parsed:
  assumes "text \<noteq> []" and "parse_fuzzy env text = Parsed dt"
  shows "extract_date_time env (Some text) =
           Some (strftime (if hour dt = 0 \<and> minute dt = 0 \<and> second dt = 0
                           then dt\<lparr>hour := 23, minute := 59, second := 59\<rparr> else dt))"
  using assms by (simp add: extract_date_time_def)

text \<open>Whatever the text, a parse with the time 00:00:00 is moved to the end of the day.\<close>

lemma extract_date_time_midnight:
  assumes "text \<noteq> []" and "parse_fuzzy env text = Parsed dt"
    and "hour dt = 0" "minute dt = 0" "second dt = 0"
  shows "extract_date_time env (Some text)
           = Some (strftime (dt\<lparr>hour := 23, minute := 59, second := 59\<rparr>))"
  using assms by (simp add: extract_date_time_parsed)

text \<open>
  Claim C2, on the code. The text \<^verbatim>\<open>2025-03-01 00:00:00\<close> names the time midnight;
  the parser returns midnight, and \<open>extract_date_time\<close> returns 23:59:59 of that day:
  the explicit time is not preserved.
\<close>

theorem extract_date_time_explicit_midnight:
  "parse_fuzzy canonical_env ''2025-03-01 00:00:00''
     = Parsed \<lparr>year = 2025, month = 3, day = 1, hour = 0, minute = 0, second = 0\<rparr>
   \<and> extract_date_time canonical_env (Some ''2025-03-01 00:00:00'') = Some ''2025-03-01 23:59:59''"
proof -
  let ?dt = "\<lparr>year = 2025, month = 3, day = 1, hour = 0, minute = 0, second = 0\<rparr>"
  have p: "parse_fuzzy canonical_env ''2025-03-01 00:00:00'' = Parsed ?dt" by code_simp
  have f: "strftime (?dt\<lparr>hour := 23, minute := 59, second := 59\<rparr>) = ''2025-03-01 23:59:59''"
    by code_simp
  have "extract_date_time canonical_env (Some ''2025-03-01 00:00:00'')
          = Some (strftime (?dt\<lparr>hour := 23, minute := 59, second := 59\<rparr>))"
    by (rule extract_date_time_midnight [OF _ p]) simp_all
  with p f show ?thesis by simp
qed

text \<open>
  With this parser, the date-only example of the specification and a text with an
  explicit time other than midnight.
\<close>

lemma extract_date_time_examples:
  "extract_date_time canonical_env (Some ''2025-03-01'') = Some ''2025-03-01 23:59:59''"
  "extract_date_time canonical_env (Some ''2025-03-01 14:30:00'') = Some ''2025-03-01 14:30:00''"
  by code_simp+

end
